theory Spec2Isabelle
  imports Main
begin

section \<open>Python primitives used by kerchunk/grib2.py\<close>

text \<open>
  Python strings are modelled as \<open>string\<close> (character lists). The string operations
  below are the ones the source calls: \<open>sep.join(parts)\<close>, \<open>s.lstrip(chars)\<close> for a
  one-character set, \<open>s.split(sep)\<close> for a one-character separator, and
  \<open>s.endswith(c)\<close>.
\<close>

fun py_join :: "string \<Rightarrow> string list \<Rightarrow> string" where
  "py_join sep [] = []"
| "py_join sep [x] = x"
| "py_join sep (x # y # ys) = x @ sep @ py_join sep (y # ys)"

fun lstrip :: "char \<Rightarrow> string \<Rightarrow> string" where
  "lstrip c [] = []"
| "lstrip c (x # xs) = (if x = c then lstrip c xs else x # xs)"

fun py_split :: "char \<Rightarrow> string \<Rightarrow> string list" where
  "py_split c [] = [[]]"
| "py_split c (x # xs) =
     (if x = c then [] # py_split c xs
      else (case py_split c xs of [] \<Rightarrow> [[x]] | p # ps \<Rightarrow> (x # p) # ps))"

text \<open>\<open>s.split(c)[0]\<close> and \<open>s.split(c)[-1]\<close>; the split of a string is never empty.\<close>

definition first_segment :: "char \<Rightarrow> string \<Rightarrow> string" where
  "first_segment c s = (case py_split c s of [] \<Rightarrow> [] | p # ps \<Rightarrow> p)"

definition last_segment :: "char \<Rightarrow> string \<Rightarrow> string" where
  "last_segment c s = (case rev (py_split c s) of [] \<Rightarrow> [] | p # ps \<Rightarrow> p)"

text \<open>\<open>s.endswith(c)\<close> for a one-character suffix.\<close>

definition endswith :: "string \<Rightarrow> char \<Rightarrow> bool" where
  "endswith s c = (case rev s of [] \<Rightarrow> False | x # xs \<Rightarrow> x = c)"

text \<open>
  \<open>xs.insert(i, x)\<close> for \<open>i \<ge> 0\<close>: the element goes before position \<open>i\<close>, and at the
  end when the list is shorter than \<open>i\<close>.
\<close>

definition py_insert :: "nat \<Rightarrow> 'a \<Rightarrow> 'a list \<Rightarrow> 'a list" where
  "py_insert i x xs = take i xs @ x # drop i xs"

text \<open>
  A Python dict whose order matters is an association list: \<open>d[k] = v\<close> replaces the
  value where the key stands, or appends the pair; \<open>d.get(k)\<close> is \<open>map_of d k\<close>;
  \<open>d.update(e)\<close> stores the pairs of \<open>e\<close> in turn.
\<close>

fun dict_set :: "'k \<Rightarrow> 'v \<Rightarrow> ('k \<times> 'v) list \<Rightarrow> ('k \<times> 'v) list" where
  "dict_set k v [] = [(k, v)]"
| "dict_set k v ((k', v') # d) = (if k' = k then (k, v) # d else (k', v') # dict_set k v d)"

fun dict_update :: "('k \<times> 'v) list \<Rightarrow> ('k \<times> 'v) list \<Rightarrow> ('k \<times> 'v) list" where
  "dict_update d [] = d"
| "dict_update d ((k, v) # e) = dict_update (dict_set k v d) e"

section \<open>build_path\<close>

text \<open>
  \<^verbatim>\<open>return "/".join([val for val in [*path, suffix] if val is not None]).lstrip("/")\<close>
  An element of the iterable and the suffix are \<open>str | None\<close>, hence \<open>string option\<close>.
\<close>

fun not_none :: "'a option list \<Rightarrow> 'a list" where
  "not_none [] = []"
| "not_none (None # vs) = not_none vs"
| "not_none (Some v # vs) = v # not_none vs"

definition build_path :: "string option list \<Rightarrow> string option \<Rightarrow> string" where
  "build_path path suffix = lstrip CHR ''/'' (py_join ''/'' (not_none (path @ [suffix])))"

section \<open>Errors\<close>

text \<open>
  Every exception the modelled functions can raise is a value of \<open>error\<close>; a function
  that can raise returns \<open>error + 'a\<close> with \<open>Inl\<close> for the exception. The constructors
  are named after the Python exception class and carry what the message reports.
  \<open>External\<close> is an exception raised inside a collaborator (pandas, ujson, zarr,
  MultiZarrToZarr), tagged with its name.
\<close>

datatype val = VNone | VInt int | VStr string | VBytes string | VList "val list"

datatype error =
    AssertionError
  | KeyError string
  | KeyErrorBool bool
  | TypeError string
  | RuntimeError nat
  | ValueErrorNotUnique string
  | ValueErrorChunkDim string
  | ValueErrorBadValue string val
  | ValueErrorMismatch string nat nat
  | DynamicZarrStoreError "string option" string string "nat list"
  | External string

section \<open>parse_grib_idx\<close>

text \<open>
  \<open>s.split(sep, n)\<close> for a one-character separator: at most \<open>n\<close> splits, so at most
  \<open>n + 1\<close> parts, the last one holding the unsplit rest.
\<close>

fun split_n :: "char \<Rightarrow> nat \<Rightarrow> string \<Rightarrow> string list" where
  "split_n c n [] = [[]]"
| "split_n c n (x # xs) =
     (if x = c \<and> 0 < n then [] # split_n c (n - 1) xs
      else (case split_n c n xs of [] \<Rightarrow> [[x]] | p # ps \<Rightarrow> (x # p) # ps))"

text \<open>
  A decimal reader for the two numeric columns, used where a concrete listing is
  evaluated: an optional sign and at least one digit. The conversion itself
  (\<open>astype(int)\<close>) belongs to pandas and is a parameter \<open>to_int\<close> of the model; \<open>None\<close>
  is its ValueError.
\<close>

definition digit_val :: "char \<Rightarrow> nat option" where
  "digit_val c = map_of (zip ''0123456789'' [0, 1, 2, 3, 4, 5, 6, 7, 8, 9]) c"

fun dec_nat :: "nat \<Rightarrow> string \<Rightarrow> nat option" where
  "dec_nat acc [] = Some acc"
| "dec_nat acc (c # cs) =
     (case digit_val c of None \<Rightarrow> None | Some d \<Rightarrow> dec_nat (10 * acc + d) cs)"

definition dec_int :: "string \<Rightarrow> int option" where
  "dec_int s =
     (case s of
        [] \<Rightarrow> None
      | c # cs \<Rightarrow>
          if c = CHR ''-'' then (if cs = [] then None else map_option (\<lambda>n. - int n) (dec_nat 0 cs))
          else if c = CHR ''+'' then (if cs = [] then None else map_option int (dec_nat 0 cs))
          else map_option int (dec_nat 0 s))"

text \<open>
  One row of the data frame \<open>parse_grib_idx\<close> returns. The column \<open>length\<close> of the
  source is the field \<open>length_col\<close>. \<open>date\<close> and \<open>attrs\<close> are None in a row whose line
  has fewer than four fields (pandas pads a short row of the expanded split with None).
  Offsets are mathematical integers here; pandas holds them as int64, which byte
  offsets into a file and its size do not leave.
\<close>

record idx_row =
  idx :: int
  offset :: int
  date :: "string option"
  attrs :: "string option"
  length_col :: int
  idx_uri :: string
  grib_uri :: string

text \<open>
  \<^verbatim>\<open>result["raw_data"].str.split(":", expand=True, n=3)\<close> assigned to the four columns
  idx, offset, date, attrs: the expanded frame has as many columns as the longest row has
  fields, and the assignment needs exactly four. The input \<open>raw\<close> is the raw_data column
  as \<open>read_csv\<close> delivered it, one string per line; \<open>read_csv\<close> raises on a file with
  no line.
\<close>

definition pad4 :: "string list \<Rightarrow> string option list" where
  "pad4 ps = map Some ps @ replicate (4 - length ps) None"

definition split_columns :: "string list \<Rightarrow> error + string option list list" where
  "split_columns raw =
     (let parts = map (split_n CHR '':'' 3) raw in
      if raw = [] then Inl (External ''pandas.errors.EmptyDataError'')
      else if fold max (map length parts) 0 \<noteq> 4
      then Inl (External ''ValueError: Columns must be same length as key'')
      else Inr (map pad4 parts))"

text \<open>\<^verbatim>\<open>column.astype(int)\<close>: the first cell that does not convert raises.\<close>

fun astype_int :: "(string \<Rightarrow> int option) \<Rightarrow> string option list \<Rightarrow> error + int list" where
  "astype_int to_int [] = Inr []"
| "astype_int to_int (None # cs) = Inl (TypeError ''int() argument must be a string or a number'')"
| "astype_int to_int (Some c # cs) =
     (case to_int c of
        None \<Rightarrow> Inl (External ''ValueError: invalid literal for int()'')
      | Some i \<Rightarrow> (case astype_int to_int cs of Inl e \<Rightarrow> Inl e | Inr ixs \<Rightarrow> Inr (i # ixs)))"

text \<open>\<^verbatim>\<open>series.shift(periods=-1, fill_value=v)\<close>: every value moves one row up.\<close>

definition shift_up :: "int list \<Rightarrow> int \<Rightarrow> int list" where
  "shift_up xs fill = (case xs of [] \<Rightarrow> [] | _ # t \<Rightarrow> t @ [fill])"

fun make_rows ::
  "string \<Rightarrow> string \<Rightarrow> string option list list \<Rightarrow> int list \<Rightarrow> int list \<Rightarrow> int list \<Rightarrow> idx_row list"
where
  "make_rows fname basename (cols # colss) (i # ixs) (off # offs) (len # lens) =
     \<lparr>idx = i, offset = off, date = cols ! 2, attrs = cols ! 3, length_col = len,
      idx_uri = fname, grib_uri = basename\<rparr> # make_rows fname basename colss ixs offs lens"
| "make_rows fname basename _ _ _ _ = []"

text \<open>The frame as it stands before the uniqueness check (source lines 633 to 650).\<close>

definition idx_table ::
  "(string \<Rightarrow> int option) \<Rightarrow> string \<Rightarrow> string \<Rightarrow> string list \<Rightarrow> int \<Rightarrow> error + idx_row list"
where
  "idx_table to_int basename suffix raw fsize =
     (let fname = basename @ ''.'' @ suffix in
      case split_columns raw of
        Inl e \<Rightarrow> Inl e
      | Inr colss \<Rightarrow>
          (case astype_int to_int (map (\<lambda>cols. cols ! 1) colss) of
             Inl e \<Rightarrow> Inl e
           | Inr offs \<Rightarrow>
               (case astype_int to_int (map (\<lambda>cols. cols ! 0) colss) of
                  Inl e \<Rightarrow> Inl e
                | Inr ixs \<Rightarrow>
                    Inr (make_rows fname basename colss ixs offs
                           (map2 (\<lambda>nxt off. nxt - off) (shift_up offs fsize) offs)))))"

text \<open>
  \<^verbatim>\<open>if validate and not result["attrs"].is_unique: raise ValueError(...)\<close>, then the frame
  indexed by idx (the rows keep their order).
\<close>

definition parse_grib_idx ::
  "(string \<Rightarrow> int option) \<Rightarrow> string \<Rightarrow> string \<Rightarrow> bool \<Rightarrow> string list \<Rightarrow> int \<Rightarrow> error + idx_row list"
where
  "parse_grib_idx to_int basename suffix validate raw fsize =
     (case idx_table to_int basename suffix raw fsize of
        Inl e \<Rightarrow> Inl e
      | Inr rows \<Rightarrow>
          if validate \<and> \<not> distinct (map attrs rows)
          then Inl (ValueErrorNotUnique basename)
          else Inr rows)"

definition idx_scenario :: "string list" where
  "idx_scenario = [''0:0:d1:A'', ''1:120:d2:B'', ''2:300:d3:C'']"

definition idx_duplicates :: "string list" where
  "idx_duplicates = [''1:0:d=2021:TMP:surface'', ''2:50:d=2021:TMP:surface'']"

section \<open>grib_tree\<close>

text \<open>
  One scanned message, as \<open>scan_grib\<close> produces it: the version tag and the references,
  a dict from key to an inline text or bytes value or a list \<open>[uri, offset, length]\<close>.
\<close>

record fragment =
  version :: int
  refs :: "(string \<times> val) list"

text \<open>
  The collaborators of \<open>grib_tree\<close>. \<open>loads\<close> is \<open>ujson.loads\<close> on a \<open>.zattrs\<close> entry,
  as far as the function reads it: the string-valued attributes (\<open>coordinates\<close>,
  \<open>GRIB_name\<close>, \<open>GRIB_stepType\<close>, \<open>GRIB_typeOfLevel\<close>), a missing or null attribute being
  None. \<open>translate\<close> is \<open>MultiZarrToZarr(members, remote_options=..., concat_dims=...,
  identical_dims=...).translate()["refs"]\<close>. \<open>decode\<close> is \<open>bytes.decode()\<close>.
\<close>

record ext =
  loads :: "val \<Rightarrow> error + (string \<rightharpoonup> string)"
  translate :: "fragment list \<Rightarrow> string list \<Rightarrow> string list \<Rightarrow> error + (string \<times> val) list"
  decode :: "string \<Rightarrow> error + string"

text \<open>
  The state of the first loop. The zarr hierarchy under \<open>zroot\<close> is kept as the map from
  a group's path to its attributes (the root has the empty path); how zarr writes a
  group into the store is zarr's. \<open>aggregations\<close> is the defaultdict of member lists, in
  the order its keys were first used; \<open>aggregation_dims\<close> the defaultdict of sets.
\<close>

record tree_state =
  groups :: "string \<rightharpoonup> (string \<rightharpoonup> string option)"
  aggregations :: "(string \<times> fragment list) list"
  aggregation_dims :: "string \<rightharpoonup> val set"
  unknown_counter :: nat

definition filters :: "string list" where
  "filters = [''stepType'', ''typeOfLevel'']"

definition init_state :: tree_state where
  "init_state = \<lparr>groups = [[] \<mapsto> Map.empty], aggregations = [], aggregation_dims = Map.empty,
                 unknown_counter = 0\<rparr>"

text \<open>
  \<^verbatim>\<open>for key, entry in group["refs"].items():
      name = key.split("/")[0]
      if name not in [".zattrs", ".zgroup"] and name not in coordinates:
          vname = name; break\<close>
\<close>

fun find_data_var :: "string list \<Rightarrow> (string \<times> val) list \<Rightarrow> string option" where
  "find_data_var coordinates [] = None"
| "find_data_var coordinates ((key, entry) # rest) =
     (let name = first_segment CHR ''/'' key in
      if name \<notin> set [''.zattrs'', ''.zgroup''] \<and> name \<notin> set coordinates then Some name
      else find_data_var coordinates rest)"

text \<open>
  \<^verbatim>\<open>for key in filters:
      attr_val = dattrs.get(f"GRIB_{key}")
      if attr_val is None: continue
      gfilters[key] = attr_val\<close>
\<close>

fun collect_filters :: "(string \<rightharpoonup> string) \<Rightarrow> string list \<Rightarrow> (string \<times> string) list" where
  "collect_filters dattrs [] = []"
| "collect_filters dattrs (key # keys) =
     (case dattrs (''GRIB_'' @ key) of
        None \<Rightarrow> collect_filters dattrs keys
      | Some attr_val \<Rightarrow> (key, attr_val) # collect_filters dattrs keys)"

text \<open>
  \<open>zgroup.require_group(name)\<close> and \<open>zgroup.attrs[k] = v\<close> on the hierarchy. The path
  of a child is the parent's path, a slash and the name; the root's children have the
  bare name.
\<close>

definition child_path :: "string \<Rightarrow> string \<Rightarrow> string" where
  "child_path parent name = (if parent = [] then name else parent @ ''/'' @ name)"

definition require_group :: "tree_state \<Rightarrow> string \<Rightarrow> string \<Rightarrow> tree_state \<times> string" where
  "require_group st parent name =
     (let p = child_path parent name in
      (if groups st p = None then st\<lparr>groups := (groups st)(p \<mapsto> Map.empty)\<rparr> else st, p))"

definition group_attrs :: "tree_state \<Rightarrow> string \<Rightarrow> (string \<rightharpoonup> string option)" where
  "group_attrs st p = (case groups st p of None \<Rightarrow> Map.empty | Some a \<Rightarrow> a)"

definition set_attr :: "tree_state \<Rightarrow> string \<Rightarrow> string \<Rightarrow> string option \<Rightarrow> tree_state" where
  "set_attr st p k v = st\<lparr>groups := (groups st)(p \<mapsto> (group_attrs st p)(k \<mapsto> v))\<rparr>"

text \<open>
  \<^verbatim>\<open>for key, value in gfilters.items():
      if value:
          zgroup = zgroup.require_group(value)
          zgroup.attrs[key] = value\<close>
\<close>

fun nest_groups :: "tree_state \<Rightarrow> string \<Rightarrow> (string \<times> string) list \<Rightarrow> tree_state \<times> string" where
  "nest_groups st zgroup [] = (st, zgroup)"
| "nest_groups st zgroup ((key, v) # rest) =
     (if v \<noteq> [] then
        (case require_group st zgroup v of
           (st1, zgroup1) \<Rightarrow> nest_groups (set_attr st1 zgroup1 key (Some v)) zgroup1 rest)
      else nest_groups st zgroup rest)"

text \<open>\<open>aggregations[path].append(group)\<close> on the defaultdict of lists.\<close>

fun append_member ::
  "string \<Rightarrow> fragment \<Rightarrow> (string \<times> fragment list) list \<Rightarrow> (string \<times> fragment list) list"
where
  "append_member path g [] = [(path, [g])]"
| "append_member path g ((p, ms) # rest) =
     (if p = path then (p, ms @ [g]) # rest else (p, ms) # append_member path g rest)"

text \<open>
  \<^verbatim>\<open>for key, entry in group["refs"].items():
      name = key.split("/")[0]
      if name == gfilters.get("typeOfLevel") and key.endswith("0"):
          if isinstance(entry, list): entry = tuple(entry)
          aggregation_dims[zgroup.path].add(entry)\<close>
  A list and the tuple made of it are the same \<open>VList\<close>; since every list is turned into
  a tuple before it enters the set, the set compares them alike. A tuple that holds a
  list cannot be hashed, and \<open>add\<close> raises TypeError.
\<close>

definition unhashable :: "val \<Rightarrow> bool" where
  "unhashable entry =
     (case entry of
        VList xs \<Rightarrow> list_ex (\<lambda>x. case x of VList _ \<Rightarrow> True | _ \<Rightarrow> False) xs
      | _ \<Rightarrow> False)"

fun track_levels ::
  "string \<Rightarrow> string option \<Rightarrow> (string \<times> val) list \<Rightarrow> (string \<rightharpoonup> val set)
     \<Rightarrow> error + (string \<rightharpoonup> val set)"
where
  "track_levels path lvl [] ad = Inr ad"
| "track_levels path lvl ((key, entry) # rest) ad =
     (if Some (first_segment CHR ''/'' key) = lvl \<and> endswith key CHR ''0'' then
        (if unhashable entry then Inl (TypeError ''unhashable type: list'')
         else track_levels path lvl rest
                (ad(path \<mapsto> insert entry (case ad path of None \<Rightarrow> {} | Some s \<Rightarrow> s))))
      else track_levels path lvl rest ad)"

text \<open>
  The body of the loop over the messages (source lines 416 to 489), in two parts:
  \<open>place_message\<close> is what follows the decoding of the variable's attributes (lines
  450 to 489), \<open>process_message\<close> the whole body.
\<close>

definition place_message ::
  "tree_state \<Rightarrow> fragment \<Rightarrow> string list \<Rightarrow> string \<Rightarrow> (string \<rightharpoonup> string) \<Rightarrow> error + tree_state"
where
  "place_message st g coordinates vname dattrs =
     (let gfilters = collect_filters dattrs filters in
      case require_group st [] vname of (st1, zgroup) \<Rightarrow>
      let st2 = (if group_attrs st1 zgroup ''name'' = None
                 then set_attr st1 zgroup ''name'' (dattrs ''GRIB_name'') else st1) in
      case nest_groups st2 zgroup gfilters of (st3, zgroup') \<Rightarrow>
      let st4 = set_attr st3 zgroup' ''coordinates'' (Some (py_join '' '' coordinates));
          st5 = st4\<lparr>aggregations := append_member zgroup' g (aggregations st4)\<rparr> in
      case track_levels zgroup' (map_of gfilters ''typeOfLevel'') (refs g) (aggregation_dims st5) of
        Inl e \<Rightarrow> Inl e
      | Inr ad \<Rightarrow> Inr (st5\<lparr>aggregation_dims := ad\<rparr>))"

definition process_message :: "ext \<Rightarrow> tree_state \<Rightarrow> nat \<Rightarrow> fragment \<Rightarrow> error + tree_state" where
  "process_message E st msg_ind g =
     (if version g \<noteq> 1 then Inl AssertionError
      else case map_of (refs g) ''.zattrs'' of
        None \<Rightarrow> Inl (KeyError ''.zattrs'')
      | Some z \<Rightarrow>
     (case loads E z of
        Inl e \<Rightarrow> Inl e
      | Inr gattrs \<Rightarrow>
     (case gattrs ''coordinates'' of
        None \<Rightarrow> Inl (KeyError ''coordinates'')
      | Some cs \<Rightarrow>
     (let coordinates = py_split CHR '' '' cs in
      case find_data_var coordinates (refs g) of
        None \<Rightarrow> Inl (RuntimeError msg_ind)
      | Some vname \<Rightarrow>
          if vname = ''unknown'' then Inr (st\<lparr>unknown_counter := unknown_counter st + 1\<rparr>)
          else
     (case map_of (refs g) (vname @ ''/.zattrs'') of
        None \<Rightarrow> Inl (KeyError (vname @ ''/.zattrs''))
      | Some d \<Rightarrow>
     (case loads E d of
        Inl e \<Rightarrow> Inl e
      | Inr dattrs \<Rightarrow> place_message st g coordinates vname dattrs))))))"

fun process_messages :: "ext \<Rightarrow> tree_state \<Rightarrow> nat \<Rightarrow> fragment list \<Rightarrow> error + tree_state" where
  "process_messages E st msg_ind [] = Inr st"
| "process_messages E st msg_ind (g # gs) =
     (case process_message E st msg_ind g of
        Inl e \<Rightarrow> Inl e
      | Inr st' \<Rightarrow> process_messages E st' (Suc msg_ind) gs)"

text \<open>
  The dimension treatment of one node (source lines 491 to 510): the two default lists
  are copied, the number of level values collected for the path is read from
  \<open>aggregation_dims.get(path, ())\<close>, the level group name is the last segment of the
  path.
\<close>

definition concat_dims :: "string list" where
  "concat_dims = [''time'', ''step'']"

definition identical_dims :: "string list" where
  "identical_dims = [''longitude'', ''latitude'']"

definition level_dimension_value_count :: "(string \<rightharpoonup> val set) \<Rightarrow> string \<Rightarrow> nat" where
  "level_dimension_value_count ad path = (case ad path of None \<Rightarrow> 0 | Some s \<Rightarrow> card s)"

definition level_dims :: "(string \<rightharpoonup> val set) \<Rightarrow> string \<Rightarrow> string list \<times> string list" where
  "level_dims ad path =
     (let catdims = concat_dims; idims = identical_dims;
          n = level_dimension_value_count ad path;
          level_group_name = last_segment CHR ''/'' path in
      if n = 0 then (catdims, idims)
      else if n = 1 then (catdims, idims @ [level_group_name])
      else (py_insert 3 level_group_name catdims, idims))"

text \<open>
  What the second loop hands to MultiZarrToZarr, node by node in the order of
  \<open>aggregations.keys()\<close>: the path, its members, \<open>catdims\<close> and \<open>idims\<close>.
\<close>

definition aggregation_args ::
  "tree_state \<Rightarrow> (string \<times> fragment list \<times> string list \<times> string list) list" where
  "aggregation_args st =
     map (\<lambda>(path, members). (path, members, level_dims (aggregation_dims st) path))
       (aggregations st)"

text \<open>
  \<^verbatim>\<open>for key, value in group["refs"].items():
      if key not in [".zattrs", ".zgroup"]:
          zarr_store[f"{path}/{key}"] = value\<close>
\<close>

fun write_refs ::
  "string \<Rightarrow> (string \<times> val) list \<Rightarrow> (string \<times> val) list \<Rightarrow> (string \<times> val) list"
where
  "write_refs path [] store = store"
| "write_refs path ((key, v) # rest) store =
     (if key \<notin> set [''.zattrs'', ''.zgroup'']
      then write_refs path rest (dict_set (path @ ''/'' @ key) v store)
      else write_refs path rest store)"

fun finalize ::
  "ext \<Rightarrow> (string \<times> fragment list \<times> string list \<times> string list) list
     \<Rightarrow> (string \<times> val) list \<Rightarrow> error + (string \<times> val) list"
where
  "finalize E [] store = Inr store"
| "finalize E ((path, members, catdims, idims) # rest) store =
     (case translate E members catdims idims of
        Inl e \<Rightarrow> Inl e
      | Inr group_refs \<Rightarrow> finalize E rest (write_refs path group_refs store))"

text \<open>\<^verbatim>\<open>{key: (val.decode() if isinstance(val, bytes) else val) for key, val in ...}\<close>\<close>

fun decode_store :: "ext \<Rightarrow> (string \<times> val) list \<Rightarrow> error + (string \<times> val) list" where
  "decode_store E [] = Inr []"
| "decode_store E ((key, v) # rest) =
     (case (case v of VBytes b \<Rightarrow> map_sum id VStr (decode E b) | _ \<Rightarrow> Inr v) of
        Inl e \<Rightarrow> Inl e
      | Inr v' \<Rightarrow>
          (case decode_store E rest of Inl e \<Rightarrow> Inl e | Inr rest' \<Rightarrow> Inr ((key, v') # rest')))"

text \<open>
  The result \<open>dict(refs=zarr_store, version=1)\<close>: the group hierarchy zarr holds in the
  store and the merged references written under each node's path.
\<close>

record manifest =
  m_groups :: "string \<rightharpoonup> (string \<rightharpoonup> string option)"
  m_refs :: "(string \<times> val) list"
  m_version :: int

text \<open>The second loop, the decoding and the result (source lines 491 to 541).\<close>

definition build_manifest :: "ext \<Rightarrow> tree_state \<Rightarrow> error + manifest" where
  "build_manifest E st =
     (case finalize E (aggregation_args st) [] of
        Inl e \<Rightarrow> Inl e
      | Inr store \<Rightarrow>
          (case decode_store E store of
             Inl e \<Rightarrow> Inl e
           | Inr store' \<Rightarrow> Inr \<lparr>m_groups = groups st, m_refs = store', m_version = 1\<rparr>))"

definition grib_tree :: "ext \<Rightarrow> fragment list \<Rightarrow> error + manifest" where
  "grib_tree E message_groups =
     (case process_messages E init_state 0 message_groups of
        Inl e \<Rightarrow> Inl e
      | Inr st \<Rightarrow> build_manifest E st)"

text \<open>
  The path of the node a message with the variable name \<open>vname\<close> and the variable
  attributes \<open>dattrs\<close> is placed at: the variable's group, then one nested group for
  each non-empty filter value, in the order of \<open>filters\<close>.
\<close>

definition node_path :: "string \<Rightarrow> (string \<rightharpoonup> string) \<Rightarrow> string" where
  "node_path vname dattrs =
     foldl child_path (child_path [] vname)
       (filter (\<lambda>v. v \<noteq> []) (map snd (collect_filters dattrs filters)))"

text \<open>
  Two states hold the same hierarchy when they differ at most in the drop counter;
  \<open>outcome\<close> forgets which exception a failed run raised (the message of the
  RuntimeError carries the message number).
\<close>

definition same_nodes :: "tree_state \<Rightarrow> tree_state \<Rightarrow> bool" where
  "same_nodes a b \<longleftrightarrow>
     groups a = groups b \<and> aggregations a = aggregations b
     \<and> aggregation_dims a = aggregation_dims b"

definition outcome :: "error + 'a \<Rightarrow> unit + 'a" where
  "outcome r = map_sum (\<lambda>e. ()) id r"

text \<open>
  A concrete input: messages of a variable with step type \<open>instant\<close> and level type
  \<open>heightAboveGround\<close>, each with at most one level value, and decoders that know the
  two attribute documents these messages carry. \<open>three_levels\<close> is the scenario of three
  messages with the level values 2, 10 and 10.
\<close>

definition level_message :: "string \<Rightarrow> string option \<Rightarrow> fragment" where
  "level_message vname lvl =
     \<lparr>version = 1,
      refs = [(''.zgroup'', VStr ''{zarr_format:2}''),
              (''.zattrs'', VStr ''group-attrs''),
              (''heightAboveGround/.zattrs'', VStr ''coord-attrs'')]
             @ (case lvl of None \<Rightarrow> [] | Some l \<Rightarrow> [(''heightAboveGround/0'', VStr l)])
             @ [(vname @ ''/.zattrs'', VStr ''var-attrs''),
                (vname @ ''/0.0'', VList [VStr ''s3://bucket/f.grib2'', VInt 0, VInt 100])]\<rparr>"

definition example_ext :: ext where
  "example_ext =
     \<lparr>loads = (\<lambda>v. if v = VStr ''group-attrs''
                     then Inr [''coordinates'' \<mapsto> ''heightAboveGround latitude longitude step time'']
                     else if v = VStr ''var-attrs''
                     then Inr [''GRIB_name'' \<mapsto> ''2 metre temperature'',
                               ''GRIB_stepType'' \<mapsto> ''instant'',
                               ''GRIB_typeOfLevel'' \<mapsto> ''heightAboveGround'']
                     else Inl (External ''ujson.JSONDecodeError'')),
      translate = (\<lambda>members catdims idims. Inr (concat (map refs members))),
      decode = Inr\<rparr>"

definition example_path :: string where
  "example_path = ''t2m/instant/heightAboveGround''"

definition example_coordinates :: "string list" where
  "example_coordinates = [''heightAboveGround'', ''latitude'', ''longitude'', ''step'', ''time'']"

definition example_dattrs :: "string \<rightharpoonup> string" where
  "example_dattrs = [''GRIB_name'' \<mapsto> ''2 metre temperature'',
                     ''GRIB_stepType'' \<mapsto> ''instant'',
                     ''GRIB_typeOfLevel'' \<mapsto> ''heightAboveGround'']"



text \<open>
  A message with no data variable (every top-level name is metadata or a coordinate), and
  a sequence with a message whose variable decodes as \<open>unknown\<close> in the middle.
\<close>

definition coordinates_only :: fragment where
  "coordinates_only =
     \<lparr>version = 1,
      refs = [(''.zattrs'', VStr ''group-attrs''), (''latitude/0'', VStr ''lat-values'')]\<rparr>"

definition unknown_message :: fragment where
  "unknown_message = level_message ''unknown'' (Some ''10'')"

section \<open>extract_dataset_chunk_index\<close>

text \<open>\<open>str(n)\<close> for a chunk index, which is never negative.\<close>

definition digit_char :: "nat \<Rightarrow> char" where
  "digit_char d = ''0123456789'' ! d"

fun str_nat :: "nat \<Rightarrow> string" where
  "str_nat n = (if n < 10 then [digit_char n] else str_nat (n div 10) @ [digit_char (n mod 10)])"

declare str_nat.simps [simp del]

text \<open>
  The dataset view the function reads. A coordinate variable has its dimension names and
  its values: \<open>c_values cv index\<close> is \<open>cvar.to_numpy()[index]\<close>, None when the indexing
  raises. A data variable has its dimension names, its shape and its coordinates (a dict,
  in order). A node of the tree above the dataset has its attributes and its parent; a
  parent has a child and therefore counts as true in \<open>while walk_group\<close>. The dataset
  itself has its attributes, its data variables, and, when it is a DataTree node, its
  path and its parent (\<open>ds_tree = None\<close> for a plain dataset).
\<close>

record coord_var =
  c_dims :: "string list"
  c_values :: "nat list \<rightharpoonup> val"

record data_var =
  dims :: "string list"
  shape :: "nat list"
  coords :: "(string \<times> coord_var) list"

datatype group_node = GroupNode (node_attrs: "(string \<times> val) list") (node_parent: "group_node option")

record dataset =
  ds_attrs :: "(string \<times> val) list"
  ds_tree :: "(string \<times> group_node option) option"
  data_vars :: "(string \<times> data_var) list"

text \<open>
  \<^verbatim>\<open>attributes = dset.attrs.copy()
  if isinstance(dset, datatree.DataTree):
      dpath = dset.path
      walk_group = dset.parent
      while walk_group:
          attributes.update(walk_group.attrs)
          walk_group = walk_group.parent\<close>
\<close>

fun walk_up :: "(string \<times> val) list \<Rightarrow> group_node \<Rightarrow> (string \<times> val) list" where
  "walk_up attributes (GroupNode a parent) =
     (case parent of
        None \<Rightarrow> dict_update attributes a
      | Some walk_group \<Rightarrow> walk_up (dict_update attributes a) walk_group)"

definition merged_attributes :: "dataset \<Rightarrow> (string \<times> val) list" where
  "merged_attributes dset =
     (case ds_tree dset of
        None \<Rightarrow> ds_attrs dset
      | Some (p, None) \<Rightarrow> ds_attrs dset
      | Some (p, Some walk_group) \<Rightarrow> walk_up (ds_attrs dset) walk_group)"

definition dpath_of :: "dataset \<Rightarrow> string option" where
  "dpath_of dset = map_option fst (ds_tree dset)"

text \<open>
  \<^verbatim>\<open>for ddim_nane, ddim_size, dchunk_size in zip(dvar.dims, dshape, dchunk):
      if dchunk_size == 1:
          index_dims[ddim_nane] = ddim_size
      elif dchunk_size != ddim_size:
          raise ValueError("Can not extract chunk index for dimension %s ..." % ddim_nane)\<close>
\<close>

fun index_dims_loop ::
  "(string \<times> nat \<times> int) list \<Rightarrow> (string \<times> nat) list \<Rightarrow> error + (string \<times> nat) list"
where
  "index_dims_loop [] index_dims = Inr index_dims"
| "index_dims_loop ((ddim_name, ddim_size, dchunk_size) # rest) index_dims =
     (if dchunk_size = 1 then index_dims_loop rest (dict_set ddim_name ddim_size index_dims)
      else if dchunk_size \<noteq> int ddim_size then Inl (ValueErrorChunkDim ddim_name)
      else index_dims_loop rest index_dims)"

definition index_dims_of :: "data_var \<Rightarrow> int list \<Rightarrow> error + (string \<times> nat) list" where
  "index_dims_of dvar dchunk = index_dims_loop (zip (dims dvar) (zip (shape dvar) dchunk)) []"

text \<open>\<open>itertools.product(*[range(v) for v in sizes])\<close>, the last index running fastest.\<close>

fun product_ranges :: "nat list \<Rightarrow> nat list list" where
  "product_ranges [] = [[]]"
| "product_ranges (v # vs) = concat (map (\<lambda>i. map ((#) i) (product_ranges vs)) [0..<v])"

text \<open>
  The coordinates of one chunk. In grib mode a coordinate outside the five recognised
  names is stored under the key \<open>level\<close>. \<open>lookup_dims\<close> is the test
  \<open>all(dim_name in dim_idx ...)\<close> together with the index tuple it guards.
\<close>

definition coord_key :: "bool \<Rightarrow> string \<Rightarrow> string" where
  "coord_key grib cname =
     (if grib then
        (if cname \<in> set [''valid_time'', ''time'', ''step'', ''latitude'', ''longitude'']
         then cname else ''level'')
      else cname)"

fun lookup_dims :: "(string \<times> nat) list \<Rightarrow> string list \<Rightarrow> nat list option" where
  "lookup_dims dim_idx [] = Some []"
| "lookup_dims dim_idx (d # ds) =
     (case map_of dim_idx d of
        None \<Rightarrow> None
      | Some i \<Rightarrow> map_option ((#) i) (lookup_dims dim_idx ds))"

fun coord_loop ::
  "bool \<Rightarrow> string option \<Rightarrow> string \<Rightarrow> (string \<times> nat) list \<Rightarrow> (string \<times> coord_var) list
     \<Rightarrow> (string \<times> val) list \<Rightarrow> error + (string \<times> val) list"
where
  "coord_loop grib dpath dname dim_idx [] coord_vals = Inr coord_vals"
| "coord_loop grib dpath dname dim_idx ((cname, cvar) # rest) coord_vals =
     (case lookup_dims dim_idx (c_dims cvar) of
        None \<Rightarrow> coord_loop grib dpath dname dim_idx rest coord_vals
      | Some coord_index \<Rightarrow>
          (case c_values cvar coord_index of
             None \<Rightarrow> Inl (DynamicZarrStoreError dpath dname (coord_key grib cname) coord_index)
           | Some v \<Rightarrow>
               coord_loop grib dpath dname dim_idx rest
                 (dict_set (coord_key grib cname) v coord_vals)))"

text \<open>
  \<^verbatim>\<open>whole_dim_cnt = len(dvar.dims) - len(dim_idx)
  chunk_idx = map(str, [*idx, *[0] * whole_dim_cnt])
  chunk_key = build_path([dpath, dname], suffix=".".join(chunk_idx))\<close>
\<close>

definition chunk_key_of :: "string option \<Rightarrow> string \<Rightarrow> data_var \<Rightarrow> nat list \<Rightarrow> nat \<Rightarrow> string" where
  "chunk_key_of dpath dname dvar idx' n_dim_idx =
     build_path [dpath, Some dname]
       (Some (py_join ''.'' (map str_nat (idx' @ replicate (length (dims dvar) - n_dim_idx) 0))))"

text \<open>
  The four branches on \<open>chunk_ref = ref_store.get(chunk_key)\<close> (source lines 761 to
  775). \<open>get\<close> answers None for a missing key and for a key that holds None. The result
  None is the \<open>continue\<close>.
\<close>

definition chunk_data_of :: "string \<Rightarrow> val option \<Rightarrow> error + (string \<times> val) list option" where
  "chunk_data_of chunk_key chunk_ref =
     (case chunk_ref of
        None \<Rightarrow> Inr None
      | Some VNone \<Rightarrow> Inr None
      | Some (VList [u, off, len]) \<Rightarrow>
          Inr (Some [(''uri'', u), (''offset'', off), (''length'', len), (''inline_value'', VNone)])
      | Some (VBytes b) \<Rightarrow>
          Inr (Some [(''inline_value'', VBytes b), (''offset'', VInt (- 1)), (''length'', VInt (- 1))])
      | Some (VStr s) \<Rightarrow>
          Inr (Some [(''inline_value'', VStr s), (''offset'', VInt (- 1)), (''length'', VInt (- 1))])
      | Some v \<Rightarrow> Inl (ValueErrorBadValue chunk_key v))"

text \<open>
  \<open>dict(varname=dname, **attributes, **coord_vals, **chunk_data)\<close>: a keyword given
  twice is a TypeError.
\<close>

definition add_kwargs :: "(string \<times> val) list \<Rightarrow> (string \<times> val) list \<Rightarrow> error + (string \<times> val) list" where
  "add_kwargs kw more_kw =
     (if list_ex (\<lambda>k. k \<in> set (map fst kw)) (map fst more_kw)
      then Inl (TypeError ''dict() got multiple values for keyword argument'')
      else Inr (kw @ more_kw))"

definition make_record ::
  "string \<Rightarrow> (string \<times> val) list \<Rightarrow> (string \<times> val) list \<Rightarrow> (string \<times> val) list
     \<Rightarrow> error + (string \<times> val) list"
where
  "make_record dname attributes coord_vals chunk_data =
     (case add_kwargs [(''varname'', VStr dname)] attributes of
        Inl e \<Rightarrow> Inl e
      | Inr kw1 \<Rightarrow>
          (case add_kwargs kw1 coord_vals of
             Inl e \<Rightarrow> Inl e
           | Inr kw2 \<Rightarrow> add_kwargs kw2 chunk_data))"

text \<open>The body of the loop over the index combinations (source lines 732 to 776).\<close>

definition chunk_record ::
  "bool \<Rightarrow> (string \<rightharpoonup> val) \<Rightarrow> string option \<Rightarrow> (string \<times> val) list \<Rightarrow> string \<Rightarrow> data_var
     \<Rightarrow> (string \<times> nat) list \<Rightarrow> nat list \<Rightarrow> error + (string \<times> val) list option"
where
  "chunk_record grib ref_store dpath attributes dname dvar index_dims idx' =
     (let dim_idx = zip (map fst index_dims) idx' in
      case coord_loop grib dpath dname dim_idx (coords dvar) [] of
        Inl e \<Rightarrow> Inl e
      | Inr coord_vals \<Rightarrow>
          (let chunk_key = chunk_key_of dpath dname dvar idx' (length dim_idx) in
           case chunk_data_of chunk_key (ref_store chunk_key) of
             Inl e \<Rightarrow> Inl e
           | Inr None \<Rightarrow> Inr None
           | Inr (Some chunk_data) \<Rightarrow>
               map_sum id Some (make_record dname attributes coord_vals chunk_data)))"

fun chunks_loop ::
  "bool \<Rightarrow> (string \<rightharpoonup> val) \<Rightarrow> string option \<Rightarrow> (string \<times> val) list \<Rightarrow> string \<Rightarrow> data_var
     \<Rightarrow> (string \<times> nat) list \<Rightarrow> nat list list \<Rightarrow> (string \<times> val) list list
     \<Rightarrow> error + (string \<times> val) list list"
where
  "chunks_loop grib ref_store dpath attributes dname dvar index_dims [] result = Inr result"
| "chunks_loop grib ref_store dpath attributes dname dvar index_dims (idx' # idxs) result =
     (case chunk_record grib ref_store dpath attributes dname dvar index_dims idx' of
        Inl e \<Rightarrow> Inl e
      | Inr None \<Rightarrow>
          chunks_loop grib ref_store dpath attributes dname dvar index_dims idxs result
      | Inr (Some r) \<Rightarrow>
          chunks_loop grib ref_store dpath attributes dname dvar index_dims idxs (result @ [r]))"

text \<open>
  The body of the loop over the data variables (source lines 714 to 776).
  \<open>zarray_chunks\<close> is \<open>ujson.loads(...)["chunks"]\<close> on the variable's \<open>.zarray\<close> entry,
  a collaborator like \<open>loads\<close>.
\<close>

definition var_records ::
  "(val \<Rightarrow> error + int list) \<Rightarrow> bool \<Rightarrow> (string \<rightharpoonup> val) \<Rightarrow> string option \<Rightarrow> (string \<times> val) list
     \<Rightarrow> string \<times> data_var \<Rightarrow> (string \<times> val) list list \<Rightarrow> error + (string \<times> val) list list"
where
  "var_records zarray_chunks grib ref_store dpath attributes dv result =
     (case dv of (dname, dvar) \<Rightarrow>
      case ref_store (build_path [dpath, Some dname] (Some ''.zarray'')) of
        None \<Rightarrow> Inl (KeyError (build_path [dpath, Some dname] (Some ''.zarray'')))
      | Some z \<Rightarrow>
          (case zarray_chunks z of
             Inl e \<Rightarrow> Inl e
           | Inr dchunk \<Rightarrow>
               (case index_dims_of dvar dchunk of
                  Inl e \<Rightarrow> Inl e
                | Inr index_dims \<Rightarrow>
                    chunks_loop grib ref_store dpath attributes dname dvar index_dims
                      (product_ranges (map snd index_dims)) result)))"

fun vars_loop ::
  "(val \<Rightarrow> error + int list) \<Rightarrow> bool \<Rightarrow> (string \<rightharpoonup> val) \<Rightarrow> string option \<Rightarrow> (string \<times> val) list
     \<Rightarrow> (string \<times> data_var) list \<Rightarrow> (string \<times> val) list list \<Rightarrow> error + (string \<times> val) list list"
where
  "vars_loop zarray_chunks grib ref_store dpath attributes [] result = Inr result"
| "vars_loop zarray_chunks grib ref_store dpath attributes (dv # dvs) result =
     (case var_records zarray_chunks grib ref_store dpath attributes dv result of
        Inl e \<Rightarrow> Inl e
      | Inr result' \<Rightarrow> vars_loop zarray_chunks grib ref_store dpath attributes dvs result')"

definition extract_dataset_chunk_index ::
  "(val \<Rightarrow> error + int list) \<Rightarrow> dataset \<Rightarrow> (string \<rightharpoonup> val) \<Rightarrow> bool \<Rightarrow> error + (string \<times> val) list list"
where
  "extract_dataset_chunk_index zarray_chunks dset ref_store grib =
     vars_loop zarray_chunks grib ref_store (dpath_of dset) (merged_attributes dset)
       (data_vars dset) []"

text \<open>
  The two forms of the chunk location in a record, read with \<open>record.get\<close>: the
  byte-range form has \<open>uri\<close>, \<open>offset\<close> and \<open>length\<close> and \<open>inline_value = None\<close>; the
  inline form has a text or bytes \<open>inline_value\<close> and the sentinel -1 as offset and
  length.
\<close>

definition byte_range_form :: "(string \<times> val) list \<Rightarrow> bool" where
  "byte_range_form r \<longleftrightarrow>
     map_of r ''uri'' \<noteq> None \<and> map_of r ''offset'' \<noteq> None \<and> map_of r ''length'' \<noteq> None
     \<and> map_of r ''inline_value'' = Some VNone"

definition is_inline :: "val \<Rightarrow> bool" where
  "is_inline v = (case v of VStr s \<Rightarrow> True | VBytes b \<Rightarrow> True | _ \<Rightarrow> False)"

definition inline_form :: "(string \<times> val) list \<Rightarrow> bool" where
  "inline_form r \<longleftrightarrow>
     (case map_of r ''inline_value'' of None \<Rightarrow> False | Some v \<Rightarrow> is_inline v)
     \<and> map_of r ''offset'' = Some (VInt (- 1)) \<and> map_of r ''length'' = Some (VInt (- 1))"

text \<open>
  The value the walk leaves for an attribute that an ancestor sets: the one of the
  ancestor highest up that has it. An attribute dict has each key once.
\<close>

fun ancestor_value :: "group_node \<Rightarrow> string \<Rightarrow> val option" where
  "ancestor_value (GroupNode a parent) k =
     (case (case parent of None \<Rightarrow> None | Some g \<Rightarrow> ancestor_value g k) of
        Some v \<Rightarrow> Some v
      | None \<Rightarrow> map_of a k)"

fun wf_node :: "group_node \<Rightarrow> bool" where
  "wf_node (GroupNode a parent) =
     (distinct (map fst a) \<and> (case parent of None \<Rightarrow> True | Some g \<Rightarrow> wf_node g))"

text \<open>
  A concrete tree node: the group \<open>/t2m/instant/heightAboveGround\<close> with one data
  variable of shape 2 x 3 x 4 in chunks of 1 x 3 x 4, a manifest with a byte range for
  the first chunk and an inline value for the second, and a \<open>name\<close> attribute both on the
  node and on its grandparent.
\<close>

definition example_var :: data_var where
  "example_var =
     \<lparr>dims = [''time'', ''y'', ''x''], shape = [2, 3, 4],
      coords =
        [(''time'', \<lparr>c_dims = [''time''], c_values = [[0] \<mapsto> VInt 1000, [1] \<mapsto> VInt 2000]\<rparr>),
         (''heightAboveGround'', \<lparr>c_dims = [], c_values = [[] \<mapsto> VInt 2]\<rparr>),
         (''latitude'', \<lparr>c_dims = [''y'', ''x''], c_values = Map.empty\<rparr>)]\<rparr>"

definition example_parent :: group_node where
  "example_parent =
     GroupNode [(''stepType'', VStr ''instant'')]
       (Some (GroupNode [(''name'', VStr ''2 metre temperature'')] (Some (GroupNode [] None))))"

definition example_dataset :: dataset where
  "example_dataset =
     \<lparr>ds_attrs = [(''typeOfLevel'', VStr ''heightAboveGround''), (''name'', VStr ''leaf'')],
      ds_tree = Some (''/t2m/instant/heightAboveGround'', Some example_parent),
      data_vars = [(''t2m'', example_var)]\<rparr>"

definition example_store :: "string \<rightharpoonup> val" where
  "example_store =
     map_of
       [(''t2m/instant/heightAboveGround/t2m/.zarray'', VStr ''zarray''),
        (''t2m/instant/heightAboveGround/t2m/0.0.0'',
           VList [VStr ''s3://bucket/f.grib2'', VInt 0, VInt 100]),
        (''t2m/instant/heightAboveGround/t2m/1.0.0'', VStr ''base64:AAAA'')]"

definition example_chunks :: "val \<Rightarrow> error + int list" where
  "example_chunks z = Inr [1, 3, 4]"

definition example_records :: "(string \<times> val) list list" where
  "example_records =
     [[(''varname'', VStr ''t2m''), (''typeOfLevel'', VStr ''heightAboveGround''),
       (''name'', VStr ''2 metre temperature''), (''stepType'', VStr ''instant''),
       (''time'', VInt 1000), (''level'', VInt 2),
       (''uri'', VStr ''s3://bucket/f.grib2''), (''offset'', VInt 0), (''length'', VInt 100),
       (''inline_value'', VNone)],
      [(''varname'', VStr ''t2m''), (''typeOfLevel'', VStr ''heightAboveGround''),
       (''name'', VStr ''2 metre temperature''), (''stepType'', VStr ''instant''),
       (''time'', VInt 2000), (''level'', VInt 2),
       (''inline_value'', VStr ''base64:AAAA''), (''offset'', VInt (- 1)),
       (''length'', VInt (- 1))]]"

text \<open>
  A record is emitted from a manifest and the merged attributes when the entry at some
  chunk key gave its location fields and the record was built from them.
\<close>

definition emitted :: "(string \<rightharpoonup> val) \<Rightarrow> (string \<times> val) list \<Rightarrow> (string \<times> val) list \<Rightarrow> bool" where
  "emitted ref_store attributes r \<longleftrightarrow>
     (\<exists>dname coord_vals key chunk_data.
        chunk_data_of key (ref_store key) = Inr (Some chunk_data)
        \<and> make_record dname attributes coord_vals chunk_data = Inr r)"

text \<open>The dimensions of a variable paired with their sizes and chunk sizes, as the loop zips them.\<close>

definition dim_triples :: "data_var \<Rightarrow> int list \<Rightarrow> (string \<times> nat \<times> int) list" where
  "dim_triples dvar dchunk = zip (dims dvar) (zip (shape dvar) dchunk)"

definition partial_chunk :: "string \<times> nat \<times> int \<Rightarrow> bool" where
  "partial_chunk t = (case t of (n, s, c) \<Rightarrow> c \<noteq> 1 \<and> c \<noteq> int s)"

definition unit_chunk :: "string \<times> nat \<times> int \<Rightarrow> bool" where
  "unit_chunk t = (case t of (n, s, c) \<Rightarrow> c = 1)"

text \<open>
  The example manifest with the first chunk given as a one-element list \<open>[uri]\<close>, the
  form the reference file format uses for a whole file.
\<close>

definition whole_file_store :: "string \<rightharpoonup> val" where
  "whole_file_store =
     example_store(''t2m/instant/heightAboveGround/t2m/0.0.0'' \<mapsto> VList [VStr ''s3://bucket/f.grib2''])"

text \<open>The example manifest without an entry for the second chunk.\<close>

definition sparse_store :: "string \<rightharpoonup> val" where
  "sparse_store = example_store(''t2m/instant/heightAboveGround/t2m/1.0.0'' := None)"

text \<open>
  The diagnostic of the function: \<^verbatim>\<open>logger.warning("Chunk not found: %s", chunk_key)\<close>,
  written where the loop continues without a record. The loops below are the loops of the
  function with the log of these warnings carried along; the log is kept also when the
  call ends in an exception.
\<close>

datatype diagnostic = ChunkNotFound string

fun chunks_loop_logged ::
  "bool \<Rightarrow> (string \<rightharpoonup> val) \<Rightarrow> string option \<Rightarrow> (string \<times> val) list \<Rightarrow> string \<Rightarrow> data_var
     \<Rightarrow> (string \<times> nat) list \<Rightarrow> nat list list \<Rightarrow> (string \<times> val) list list \<Rightarrow> diagnostic list
     \<Rightarrow> diagnostic list \<times> (error + (string \<times> val) list list)"
where
  "chunks_loop_logged grib ref_store dpath attributes dname dvar index_dims [] result log =
     (log, Inr result)"
| "chunks_loop_logged grib ref_store dpath attributes dname dvar index_dims (idx' # idxs) result log =
     (case chunk_record grib ref_store dpath attributes dname dvar index_dims idx' of
        Inl e \<Rightarrow> (log, Inl e)
      | Inr None \<Rightarrow>
          chunks_loop_logged grib ref_store dpath attributes dname dvar index_dims idxs result
            (log @ [ChunkNotFound
                      (chunk_key_of dpath dname dvar idx' (length (zip (map fst index_dims) idx')))])
      | Inr (Some r) \<Rightarrow>
          chunks_loop_logged grib ref_store dpath attributes dname dvar index_dims idxs
            (result @ [r]) log)"

definition var_records_logged ::
  "(val \<Rightarrow> error + int list) \<Rightarrow> bool \<Rightarrow> (string \<rightharpoonup> val) \<Rightarrow> string option \<Rightarrow> (string \<times> val) list
     \<Rightarrow> string \<times> data_var \<Rightarrow> (string \<times> val) list list \<Rightarrow> diagnostic list
     \<Rightarrow> diagnostic list \<times> (error + (string \<times> val) list list)"
where
  "var_records_logged zarray_chunks grib ref_store dpath attributes dv result log =
     (case dv of (dname, dvar) \<Rightarrow>
      case ref_store (build_path [dpath, Some dname] (Some ''.zarray'')) of
        None \<Rightarrow> (log, Inl (KeyError (build_path [dpath, Some dname] (Some ''.zarray''))))
      | Some z \<Rightarrow>
          (case zarray_chunks z of
             Inl e \<Rightarrow> (log, Inl e)
           | Inr dchunk \<Rightarrow>
               (case index_dims_of dvar dchunk of
                  Inl e \<Rightarrow> (log, Inl e)
                | Inr index_dims \<Rightarrow>
                    chunks_loop_logged grib ref_store dpath attributes dname dvar index_dims
                      (product_ranges (map snd index_dims)) result log)))"

fun vars_loop_logged ::
  "(val \<Rightarrow> error + int list) \<Rightarrow> bool \<Rightarrow> (string \<rightharpoonup> val) \<Rightarrow> string option \<Rightarrow> (string \<times> val) list
     \<Rightarrow> (string \<times> data_var) list \<Rightarrow> (string \<times> val) list list \<Rightarrow> diagnostic list
     \<Rightarrow> diagnostic list \<times> (error + (string \<times> val) list list)"
where
  "vars_loop_logged zarray_chunks grib ref_store dpath attributes [] result log = (log, Inr result)"
| "vars_loop_logged zarray_chunks grib ref_store dpath attributes (dv # dvs) result log =
     (case var_records_logged zarray_chunks grib ref_store dpath attributes dv result log of
        (log', Inl e) \<Rightarrow> (log', Inl e)
      | (log', Inr result') \<Rightarrow>
          vars_loop_logged zarray_chunks grib ref_store dpath attributes dvs result' log')"

definition extract_dataset_chunk_index_logged ::
  "(val \<Rightarrow> error + int list) \<Rightarrow> dataset \<Rightarrow> (string \<rightharpoonup> val) \<Rightarrow> bool
     \<Rightarrow> diagnostic list \<times> (error + (string \<times> val) list list)"
where
  "extract_dataset_chunk_index_logged zarray_chunks dset ref_store grib =
     vars_loop_logged zarray_chunks grib ref_store (dpath_of dset) (merged_attributes dset)
       (data_vars dset) [] []"

text \<open>
  A chunk of a variable is reached first when the variables before it and the chunks of
  the variable before it were indexed without error and its own coordinates were read;
  \<open>res1\<close> are the records found until then and \<open>coord_vals\<close> its coordinate values.
  \<open>rest_of_call\<close> is what the call does after the chunk: the remaining chunks of the
  variable, then the remaining variables.
\<close>

definition reached ::
  "(val \<Rightarrow> error + int list) \<Rightarrow> bool \<Rightarrow> (string \<rightharpoonup> val) \<Rightarrow> dataset \<Rightarrow> string \<Rightarrow> data_var
     \<Rightarrow> (string \<times> nat) list \<Rightarrow> nat list \<Rightarrow> (string \<times> data_var) list \<Rightarrow> (string \<times> data_var) list
     \<Rightarrow> nat list list \<Rightarrow> nat list list \<Rightarrow> (string \<times> val) list list \<Rightarrow> (string \<times> val) list \<Rightarrow> bool"
where
  "reached zarray_chunks grib ref_store dset dname dvar index_dims idx' vs rest pre post res1 coord_vals
     \<longleftrightarrow>
     data_vars dset = vs @ (dname, dvar) # rest
     \<and> product_ranges (map snd index_dims) = pre @ idx' # post
     \<and> (case vars_loop zarray_chunks grib ref_store (dpath_of dset) (merged_attributes dset) vs [] of
           Inl e \<Rightarrow> False
         | Inr res \<Rightarrow>
             chunks_loop grib ref_store (dpath_of dset) (merged_attributes dset) dname dvar
               index_dims pre res = Inr res1)
     \<and> coord_loop grib (dpath_of dset) dname (zip (map fst index_dims) idx') (coords dvar) []
         = Inr coord_vals"

definition rest_of_call ::
  "(val \<Rightarrow> error + int list) \<Rightarrow> bool \<Rightarrow> (string \<rightharpoonup> val) \<Rightarrow> dataset \<Rightarrow> string \<Rightarrow> data_var
     \<Rightarrow> (string \<times> nat) list \<Rightarrow> nat list list \<Rightarrow> (string \<times> data_var) list \<Rightarrow> (string \<times> val) list list
     \<Rightarrow> error + (string \<times> val) list list"
where
  "rest_of_call zarray_chunks grib ref_store dset dname dvar index_dims post rest result =
     (case chunks_loop grib ref_store (dpath_of dset) (merged_attributes dset) dname dvar
             index_dims post result of
        Inl e \<Rightarrow> Inl e
      | Inr result' \<Rightarrow>
          vars_loop zarray_chunks grib ref_store (dpath_of dset) (merged_attributes dset) rest
            result')"

section \<open>build_idx_grib_mapping\<close>

text \<open>
  One row of the frame \<open>_map_grib_file_by_group\<close> returns: the message number, the
  fields every chunk index record has (\<open>varname\<close>, \<open>offset\<close>, \<open>length\<close>,
  \<open>inline_value\<close>), and the other columns of the record (group attributes, coordinate
  values) as a dict. The frame is computed by collaborators (\<open>scan_grib\<close>, the datatree
  reader) and is an input here; it has at least one row, since concatenating no frames
  raises there.
\<close>

record grib_row =
  g_idx :: int
  g_varname :: string
  g_offset :: val
  g_length :: val
  g_inline_value :: val
  g_columns :: "(string \<times> val) list"

text \<open>
  \<^verbatim>\<open>idx_file_index.merge(grib_file_index, on="idx", how="left", suffixes=("_idx", "_grib"))\<close>
  A row of the result is a row of the listing with a row of the computed frame that has
  the same message number, or with none: then every computed column is NaN. The rows of
  the listing keep their order.
\<close>

record joined_row =
  left_row :: idx_row
  right_row :: "grib_row option"

definition merge_left :: "idx_row list \<Rightarrow> grib_row list \<Rightarrow> joined_row list" where
  "merge_left idx_file_index grib_file_index =
     concat (map (\<lambda>l. case filter (\<lambda>g. g_idx g = idx l) grib_file_index of
                          [] \<Rightarrow> [\<lparr>left_row = l, right_row = None\<rparr>]
                        | gs \<Rightarrow> map (\<lambda>g. \<lparr>left_row = l, right_row = Some g\<rparr>) gs)
               idx_file_index)"

text \<open>The columns of the merged frame the validation reads; None is NaN.\<close>

definition offset_grib :: "joined_row \<Rightarrow> val option" where
  "offset_grib j = map_option g_offset (right_row j)"

definition length_grib :: "joined_row \<Rightarrow> val option" where
  "length_grib j = map_option g_length (right_row j)"

definition inline_value :: "joined_row \<Rightarrow> val option" where
  "inline_value j = map_option g_inline_value (right_row j)"

definition column :: "joined_row \<Rightarrow> string \<Rightarrow> val option" where
  "column j c =
     (case right_row j of
        None \<Rightarrow> None
      | Some g \<Rightarrow> if c = ''varname'' then Some (VStr (g_varname g)) else map_of (g_columns g) c)"

text \<open>\<open>pd.isna\<close>: true of NaN and of None.\<close>

definition isna :: "val option \<Rightarrow> bool" where
  "isna v \<longleftrightarrow> v = None \<or> v = Some VNone"

text \<open>
  \<^verbatim>\<open>(result.loc[:, "offset_idx"] == result.loc[:, "offset_grib"])
    | pd.isna(result.loc[:, "offset_grib"])
    | ~pd.isna(result.loc[:, "inline_value"])\<close>
  and the same for the length, row by row.
\<close>

definition match_offset :: "joined_row \<Rightarrow> bool" where
  "match_offset j \<longleftrightarrow>
     offset_grib j = Some (VInt (offset (left_row j)))
     \<or> isna (offset_grib j) \<or> \<not> isna (inline_value j)"

definition match_length :: "joined_row \<Rightarrow> bool" where
  "match_length j \<longleftrightarrow>
     length_grib j = Some (VInt (length_col (left_row j)))
     \<or> isna (length_grib j) \<or> \<not> isna (inline_value j)"

text \<open>
  \<open>series.value_counts()\<close> has an entry for each value that occurs, and \<open>vcs[b]\<close> on a
  value that does not occur raises KeyError. The message of the ValueError is built
  from \<open>vcs[True]\<close>, then \<open>vcs[False]\<close>.
\<close>

definition value_counts :: "bool list \<Rightarrow> (bool \<rightharpoonup> nat)" where
  "value_counts bs = (\<lambda>b. if b \<in> set bs then Some (count_list bs b) else None)"

definition mismatch_error :: "string \<Rightarrow> bool list \<Rightarrow> error" where
  "mismatch_error basename bs =
     (let vcs = value_counts bs in
      case vcs True of
        None \<Rightarrow> KeyErrorBool True
      | Some matched \<Rightarrow>
          (case vcs False of
             None \<Rightarrow> KeyErrorBool False
           | Some unmatched \<Rightarrow> ValueErrorMismatch basename matched unmatched))"

text \<open>
  The two uniqueness checks log a warning with the number of duplicated rows and their
  variable names. \<open>duplicated(keep=False)\<close> marks every row whose value occurs more than
  once. The composite key is read from five columns, which \<open>set_index\<close> requires the
  frame to have; NaN and None are one value in an index.
\<close>

datatype warning =
    AttrsNotUnique string nat "val option list"
  | HierarchyNotUnique string nat "val option list"

definition key_columns :: "string list" where
  "key_columns = [''varname'', ''typeOfLevel'', ''stepType'', ''level'', ''valid_time'']"

definition nan_value :: "val option \<Rightarrow> val option" where
  "nan_value v = (if isna v then None else v)"

definition composite_key :: "joined_row \<Rightarrow> val option list" where
  "composite_key j = map (\<lambda>c. nan_value (column j c)) key_columns"

definition duplicated :: "'a list \<Rightarrow> bool list" where
  "duplicated xs = map (\<lambda>x. 1 < count_list xs x) xs"

definition dup_rows :: "('a list) \<Rightarrow> joined_row list \<Rightarrow> joined_row list" where
  "dup_rows keys rows = map snd (filter fst (zip (duplicated keys) rows))"

definition attrs_warning :: "string \<Rightarrow> joined_row list \<Rightarrow> warning list" where
  "attrs_warning basename rows =
     (let keys = map (\<lambda>j. attrs (left_row j)) rows in
      if distinct keys then []
      else [AttrsNotUnique basename (length (dup_rows keys rows))
              (map (\<lambda>j. column j ''varname'') (dup_rows keys rows))])"

definition hierarchy_warning :: "string \<Rightarrow> joined_row list \<Rightarrow> warning list" where
  "hierarchy_warning basename rows =
     (let keys = map composite_key rows in
      if distinct keys then []
      else [HierarchyNotUnique basename (length (dup_rows keys rows))
              (map (\<lambda>j. column j ''varname'') (dup_rows keys rows))])"

text \<open>
  The block under \<open>if validate:\<close> (source lines 936 to 982). \<open>grib_columns\<close> are the
  column names of the computed frame besides the location fields: \<open>varname\<close> and the
  keys of the other columns of its rows.
\<close>

definition validate_mapping :: "string \<Rightarrow> string list \<Rightarrow> joined_row list \<Rightarrow> error + warning list" where
  "validate_mapping basename grib_columns rows =
     (let all_match_offset = map match_offset rows;
          all_match_length = map match_length rows in
      if \<not> list_all id all_match_offset then Inl (mismatch_error basename all_match_offset)
      else if \<not> list_all id all_match_length then Inl (mismatch_error basename all_match_length)
      else
        (case find (\<lambda>c. c \<notin> set grib_columns) key_columns of
           Some c \<Rightarrow> Inl (KeyError c)
         | None \<Rightarrow> Inr (attrs_warning basename rows @ hierarchy_warning basename rows)))"

text \<open>
  The function: the listing is parsed with \<open>parse_grib_idx\<close> (its \<open>validate\<close> left at
  False), merged with the computed frame, and validated when \<open>validate\<close> is set. The
  result is the merged frame; the warnings are what was logged.
\<close>

definition build_idx_grib_mapping ::
  "(string \<Rightarrow> int option) \<Rightarrow> string \<Rightarrow> string \<Rightarrow> string list \<Rightarrow> int \<Rightarrow> grib_row list \<Rightarrow> bool
     \<Rightarrow> error + warning list \<times> joined_row list"
where
  "build_idx_grib_mapping to_int basename suffix raw fsize grib_file_index validate =
     (case parse_grib_idx to_int basename suffix False raw fsize of
        Inl e \<Rightarrow> Inl e
      | Inr idx_file_index \<Rightarrow>
          (let result = merge_left idx_file_index grib_file_index in
           if validate then
             (case validate_mapping basename
                     (''varname'' # remdups (concat (map (\<lambda>g. map fst (g_columns g)) grib_file_index)))
                     result of
                Inl e \<Rightarrow> Inl e
              | Inr warnings \<Rightarrow> Inr (warnings, result))
           else Inr ([], result)))"

text \<open>
  Concrete frames: a listing of one message and of two messages, and computed rows for a
  byte range at a given offset.
\<close>

definition one_message :: "string list" where
  "one_message = [''1:0:d=2021010100:TMP:surface:anl:'']"

definition two_messages :: "string list" where
  "two_messages = [''1:0:d=2021010100:TMP:surface:anl:'', ''2:100:d=2021010100:TMP:surface:anl:'']"

definition computed_row :: "int \<Rightarrow> int \<Rightarrow> int \<Rightarrow> grib_row" where
  "computed_row i off len =
     \<lparr>g_idx = i, g_varname = ''t'', g_offset = VInt off, g_length = VInt len,
      g_inline_value = VNone,
      g_columns = [(''typeOfLevel'', VStr ''surface''), (''stepType'', VStr ''instant''),
                   (''level'', VInt 0), (''valid_time'', VInt 1609459200)]\<rparr>"

section \<open>Properties of the primitives\<close>

lemma not_none_append: "not_none (xs @ ys) = not_none xs @ not_none ys"
  by (induction xs rule: not_none.induct) simp_all

lemma not_none_eq_map_filter: "not_none vs = map the (filter (\<lambda>v. v \<noteq> None) vs)"
  by (induction vs rule: not_none.induct) simp_all

lemma lstrip_eq_dropWhile: "lstrip c s = dropWhile (\<lambda>x. x = c) s"
  by (induction s) simp_all

lemma lstrip_no_lead: "lstrip c s \<noteq> c # rest"
  by (induction s) auto

lemma py_join_Cons: "py_join sep (x # xs) = (if xs = [] then x else x @ sep @ py_join sep xs)"
  by (cases xs) simp_all

lemma py_join_slash:
  "py_join sep (s # ss) = s @ concat (map (\<lambda>t. sep @ t) ss)"
  by (induction ss arbitrary: s) simp_all

section \<open>build_path: the returned path\<close>

text \<open>
  C10. For every list of optional segments and every optional suffix, \<open>build_path\<close>
  returns the segments that are not None, followed by the suffix when it is not None,
  joined with "/", and with every leading "/" of the joined string removed. A None
  element leaves no trace (no empty separator), and the result never begins with "/".
  The joined string is the first segment followed by each further one behind a "/";
  for instance the segments a, None, b and the suffix c give a/b/c.
\<close>

theorem build_path_spec:
  "build_path path suffix =
     dropWhile (\<lambda>c. c = CHR ''/'')
       (py_join ''/'' (map the (filter (\<lambda>v. v \<noteq> None) (path @ [suffix]))))
   \<and> build_path (xs @ None # ys) suffix = build_path (xs @ ys) suffix
   \<and> (\<forall>rest. build_path path suffix \<noteq> CHR ''/'' # rest)
   \<and> build_path path suffix =
       dropWhile (\<lambda>c. c = CHR ''/'')
         (case map the (filter (\<lambda>v. v \<noteq> None) (path @ [suffix])) of
            [] \<Rightarrow> []
          | s # ss \<Rightarrow> s @ concat (map (\<lambda>t. CHR ''/'' # t) ss))
   \<and> build_path [Some ''a'', None, Some ''b''] (Some ''c'') = ''a/b/c''
   \<and> build_path [None, Some ''t2m''] (Some ''.zarray'') = ''t2m/.zarray''
   \<and> build_path [Some ''/t2m/instant'', Some ''t2m''] (Some ''0.0'') = ''t2m/instant/t2m/0.0''
   \<and> build_path [Some ''a'', Some ''b''] None = ''a/b''
   \<and> build_path [None] None = []"
proof (intro conjI allI)
  show "build_path path suffix =
     dropWhile (\<lambda>c. c = CHR ''/'')
       (py_join ''/'' (map the (filter (\<lambda>v. v \<noteq> None) (path @ [suffix]))))"
    unfolding build_path_def lstrip_eq_dropWhile not_none_eq_map_filter ..
  show "build_path (xs @ None # ys) suffix = build_path (xs @ ys) suffix"
    by (simp add: build_path_def not_none_append)
  show "build_path path suffix \<noteq> CHR ''/'' # rest" for rest
    unfolding build_path_def by (rule lstrip_no_lead)
  show "build_path path suffix =
       dropWhile (\<lambda>c. c = CHR ''/'')
         (case map the (filter (\<lambda>v. v \<noteq> None) (path @ [suffix])) of
            [] \<Rightarrow> []
          | s # ss \<Rightarrow> s @ concat (map (\<lambda>t. CHR ''/'' # t) ss))"
    unfolding build_path_def lstrip_eq_dropWhile not_none_eq_map_filter
    by (cases "map the (filter (\<lambda>v. v \<noteq> None) (path @ [suffix]))")
       (simp_all add: py_join_slash)
  show "build_path [Some ''a'', None, Some ''b''] (Some ''c'') = ''a/b/c''"
    by (simp add: build_path_def)
  show "build_path [None, Some ''t2m''] (Some ''.zarray'') = ''t2m/.zarray''"
    by (simp add: build_path_def)
  show "build_path [Some ''/t2m/instant'', Some ''t2m''] (Some ''0.0'') = ''t2m/instant/t2m/0.0''"
    by (simp add: build_path_def)
  show "build_path [Some ''a'', Some ''b''] None = ''a/b''"
    by (simp add: build_path_def)
  show "build_path [None] None = []"
    by (simp add: build_path_def)
qed

theorem build_path_spec_witness:
  "build_path [Some ''//grp'', None, Some ''var''] (Some ''1.0'') = ''grp/var/1.0''
   \<and> build_path [Some ''//grp'', None, Some ''var''] None = ''grp/var''"
proof -
  note t = build_path_spec [of "[Some ''//grp'', None, Some ''var'']" _ "[]" "[]"]
  have 1: "build_path [Some ''//grp'', None, Some ''var''] (Some ''1.0'') = ''grp/var/1.0''"
    using t [of "Some ''1.0''"] by simp
  have 2: "build_path [Some ''//grp'', None, Some ''var''] None = ''grp/var''"
    using t [of None] by simp
  from 1 2 show ?thesis by simp
qed

section \<open>parse_grib_idx: lengths and the uniqueness check\<close>

lemma split_n_length: "length (split_n c n s) \<le> Suc n" and split_n_nonempty: "split_n c n s \<noteq> []"
  by (induction c n s rule: split_n.induct) (auto split: list.splits)

lemma pad4_length: "length (pad4 (split_n c 3 s)) = 4"
  using split_n_length [of c 3 s] by (simp add: pad4_def)

lemma split_columns_width:
  "split_columns raw = Inr colss \<Longrightarrow> cols \<in> set colss \<Longrightarrow> length cols = 4"
  by (auto simp: split_columns_def Let_def pad4_length split: if_splits)

lemma astype_int_length: "astype_int to_int cs = Inr xs \<Longrightarrow> length xs = length cs"
  by (induction to_int cs arbitrary: xs rule: astype_int.induct)
     (auto split: option.splits sum.splits)

lemma make_rows_cols:
  "length ixs = length colss \<Longrightarrow> length offs = length colss \<Longrightarrow> length lens = length colss \<Longrightarrow>
   map offset (make_rows fname basename colss ixs offs lens) = offs
   \<and> map length_col (make_rows fname basename colss ixs offs lens) = lens
   \<and> map attrs (make_rows fname basename colss ixs offs lens) = map (\<lambda>cols. cols ! 3) colss
   \<and> map idx (make_rows fname basename colss ixs offs lens) = ixs"
proof (induction colss arbitrary: ixs offs lens)
  case Nil
  then show ?case by simp
next
  case (Cons c colss)
  then obtain i ixs' off offs' l lens' where
    "ixs = i # ixs'" "offs = off # offs'" "lens = l # lens'"
    by (metis length_Suc_conv)
  with Cons show ?case by simp
qed

lemma shift_up_length: "length (shift_up xs fill) = length xs"
  by (cases xs) (simp_all add: shift_up_def)

lemma shift_up_nth:
  "i < length xs \<Longrightarrow> shift_up xs fill ! i = (if Suc i < length xs then xs ! Suc i else fill)"
  by (cases xs) (auto simp: shift_up_def nth_append)

lemma idx_table_cols:
  assumes "idx_table to_int basename suffix raw fsize = Inr rows"
  shows "length rows = length raw"
    and "map length_col rows = map2 (\<lambda>nxt off. nxt - off) (shift_up (map offset rows) fsize) (map offset rows)"
proof -
  from assms obtain colss offs ixs where
    c: "split_columns raw = Inr colss"
    and o: "astype_int to_int (map (\<lambda>cols. cols ! 1) colss) = Inr offs"
    and i: "astype_int to_int (map (\<lambda>cols. cols ! 0) colss) = Inr ixs"
    and r: "rows = make_rows (basename @ ''.'' @ suffix) basename colss ixs offs
               (map2 (\<lambda>nxt off. nxt - off) (shift_up offs fsize) offs)"
    by (auto simp: idx_table_def Let_def split: sum.splits)
  have lc: "length colss = length raw"
    using c by (auto simp: split_columns_def Let_def split: if_splits)
  have lo: "length offs = length colss" and li: "length ixs = length colss"
    using astype_int_length [OF o] astype_int_length [OF i] by simp_all
  have ll: "length (map2 (\<lambda>nxt off. nxt - off) (shift_up offs fsize) offs) = length colss"
    by (simp add: shift_up_length lo)
  note m = make_rows_cols [OF li lo ll, of "basename @ ''.'' @ suffix" basename, folded r]
  from m have "length (map offset rows) = length offs" by simp
  then show "length rows = length raw" using lo lc by simp
  from m show "map length_col rows = map2 (\<lambda>nxt off. nxt - off) (shift_up (map offset rows) fsize) (map offset rows)"
    by simp
qed

lemma idx_table_length_col:
  assumes "idx_table to_int basename suffix raw fsize = Inr rows" and "i < length rows"
  shows "length_col (rows ! i) =
           (if Suc i < length rows then offset (rows ! Suc i) else fsize) - offset (rows ! i)"
proof -
  have "length_col (rows ! i) = map length_col rows ! i"
    using assms(2) by simp
  also have "\<dots> = map2 (\<lambda>nxt off. nxt - off) (shift_up (map offset rows) fsize) (map offset rows) ! i"
    using idx_table_cols(2) [OF assms(1)] by simp
  also have "\<dots> = shift_up (map offset rows) fsize ! i - map offset rows ! i"
    using assms(2) by (simp add: shift_up_length)
  also have "\<dots> = (if Suc i < length rows then offset (rows ! Suc i) else fsize) - offset (rows ! i)"
    using assms(2) by (simp add: shift_up_nth)
  finally show ?thesis .
qed

lemma parse_grib_idx_Inr:
  "parse_grib_idx to_int basename suffix validate raw fsize = Inr rows \<Longrightarrow>
   idx_table to_int basename suffix raw fsize = Inr rows"
  by (auto simp: parse_grib_idx_def split: sum.splits if_splits)

text \<open>
  C4. \<open>parse_grib_idx\<close> gives every entry of the listing a length equal to the next
  entry's offset minus its own offset, and the last entry the total resource size minus
  its offset; there is one entry per line. For the three lines with offsets 0, 120, 300
  and resource size 450 the lengths are 120, 180, 150.
\<close>

theorem parse_grib_idx_lengths:
  "(parse_grib_idx to_int basename suffix validate raw fsize = Inr rows \<longrightarrow>
      length rows = length raw \<and>
      (\<forall>i < length rows.
         length_col (rows ! i) =
           (if Suc i < length rows then offset (rows ! Suc i) else fsize) - offset (rows ! i)))
   \<and> (\<exists>rows. parse_grib_idx dec_int basename suffix validate idx_scenario 450 = Inr rows
         \<and> map offset rows = [0, 120, 300] \<and> map length_col rows = [120, 180, 150])"
proof -
  have general: "length rows = length raw \<and>
      (\<forall>i < length rows.
         length_col (rows ! i) =
           (if Suc i < length rows then offset (rows ! Suc i) else fsize) - offset (rows ! i))"
    if p: "parse_grib_idx to_int basename suffix validate raw fsize = Inr rows"
    using idx_table_cols(1) [OF parse_grib_idx_Inr [OF p]]
      idx_table_length_col [OF parse_grib_idx_Inr [OF p]] by blast
  have scenario: "\<exists>rows. parse_grib_idx dec_int basename suffix validate idx_scenario 450 = Inr rows
         \<and> map offset rows = [0, 120, 300] \<and> map length_col rows = [120, 180, 150]"
    by (simp add: parse_grib_idx_def idx_table_def split_columns_def idx_scenario_def pad4_def
        dec_int_def digit_val_def shift_up_def Let_def)
  from general scenario show ?thesis by blast
qed

theorem parse_grib_idx_lengths_witness:
  "\<exists>rows. parse_grib_idx dec_int ''gfs.grib2'' ''idx'' False idx_scenario 450 = Inr rows
     \<and> length rows = 3
     \<and> length_col (rows ! 0) = offset (rows ! 1) - offset (rows ! 0)
     \<and> length_col (rows ! 1) = offset (rows ! 2) - offset (rows ! 1)
     \<and> length_col (rows ! 2) = 450 - offset (rows ! 2)
     \<and> map length_col rows = [120, 180, 150]"
proof -
  obtain rows where p: "parse_grib_idx dec_int ''gfs.grib2'' ''idx'' False idx_scenario 450 = Inr rows"
    and l: "map length_col rows = [120, 180, 150]"
    using conjunct2 [OF parse_grib_idx_lengths [of dec_int "''gfs.grib2''" "''idx''" False]]
    by auto
  from parse_grib_idx_lengths [of dec_int "''gfs.grib2''" "''idx''" False idx_scenario 450 rows] p
  have n: "length rows = length idx_scenario"
    and a: "\<forall>i < length rows. length_col (rows ! i) =
           (if Suc i < length rows then offset (rows ! Suc i) else 450) - offset (rows ! i)"
    by blast+
  have n3: "length rows = 3" using n by (simp add: idx_scenario_def)
  from a n3 have "length_col (rows ! 0) = offset (rows ! 1) - offset (rows ! 0)"
    "length_col (rows ! 1) = offset (rows ! 2) - offset (rows ! 1)"
    "length_col (rows ! 2) = 450 - offset (rows ! 2)"
    by (simp_all add: numeral_3_eq_3 numeral_2_eq_2)
  with p l n3 show ?thesis by (intro exI [of _ rows]) simp
qed

text \<open>
  C9. For a listing whose lines split into the four columns and whose numeric columns
  convert (the attribute descriptor column is parsed), \<open>parse_grib_idx\<close> raises an
  error if and only if \<open>validate\<close> is set and the descriptor column has a duplicate;
  the error is then the ValueError naming the file. With \<open>validate = False\<close> the
  frame is returned whatever its descriptors, and the uniqueness error is raised in no
  other situation.
\<close>

theorem parse_grib_idx_unique:
  "(idx_table to_int basename suffix raw fsize = Inr rows \<longrightarrow>
      ((\<exists>e. parse_grib_idx to_int basename suffix validate raw fsize = Inl e)
          \<longleftrightarrow> validate \<and> \<not> distinct (map attrs rows))
      \<and> (validate \<and> \<not> distinct (map attrs rows) \<longrightarrow>
           parse_grib_idx to_int basename suffix validate raw fsize = Inl (ValueErrorNotUnique basename))
      \<and> parse_grib_idx to_int basename suffix False raw fsize = Inr rows)
   \<and> (parse_grib_idx to_int basename suffix validate raw fsize = Inl (ValueErrorNotUnique b) \<longleftrightarrow>
        b = basename \<and> validate \<and>
        (\<exists>rows. idx_table to_int basename suffix raw fsize = Inr rows \<and> \<not> distinct (map attrs rows)))"
proof -
  have no_unique_error: "e \<noteq> ValueErrorNotUnique b'"
    if "idx_table to_int basename suffix raw fsize = Inl e" for e b'
  proof -
    have c: "e \<noteq> ValueErrorNotUnique b'" if "split_columns raw = Inl e" for e
      using that by (auto simp: split_columns_def Let_def split: if_splits)
    have a: "e \<noteq> ValueErrorNotUnique b'" if "astype_int to_int cs = Inl e" for e cs
      using that
      by (induction to_int cs rule: astype_int.induct) (auto split: option.splits sum.splits)
    from that show ?thesis
      by (auto simp: idx_table_def Let_def split: sum.splits dest: c a)
  qed
  show ?thesis
    by (cases "idx_table to_int basename suffix raw fsize")
       (auto simp: parse_grib_idx_def dest: no_unique_error)
qed

theorem parse_grib_idx_unique_witness:
  "\<exists>rows. idx_table dec_int ''gfs.grib2'' ''idx'' idx_duplicates 100 = Inr rows
     \<and> \<not> distinct (map attrs rows)
     \<and> parse_grib_idx dec_int ''gfs.grib2'' ''idx'' True idx_duplicates 100
         = Inl (ValueErrorNotUnique ''gfs.grib2'')
     \<and> parse_grib_idx dec_int ''gfs.grib2'' ''idx'' False idx_duplicates 100 = Inr rows"
proof -
  obtain rows where t: "idx_table dec_int ''gfs.grib2'' ''idx'' idx_duplicates 100 = Inr rows"
    and d: "\<not> distinct (map attrs rows)"
    by (simp add: idx_table_def split_columns_def idx_duplicates_def pad4_def
        dec_int_def digit_val_def shift_up_def Let_def)
  from parse_grib_idx_unique
         [of dec_int "''gfs.grib2''" "''idx''" idx_duplicates 100 rows True "''gfs.grib2''"] t d
  have "parse_grib_idx dec_int ''gfs.grib2'' ''idx'' True idx_duplicates 100
         = Inl (ValueErrorNotUnique ''gfs.grib2'')"
    and "parse_grib_idx dec_int ''gfs.grib2'' ''idx'' False idx_duplicates 100 = Inr rows"
    by blast+
  with t d show ?thesis by blast
qed

section \<open>grib_tree: the messages and the dimension treatment\<close>

lemma py_insert_3_pair: "py_insert 3 x [a, b] = [a, b, x]"
  by (simp add: py_insert_def)

lemma level_dims_cases:
  "level_dims ad path =
     (let n = level_dimension_value_count ad path; name = last_segment CHR ''/'' path in
      if n = 0 then ([''time'', ''step''], [''longitude'', ''latitude''])
      else if n = 1 then ([''time'', ''step''], [''longitude'', ''latitude'', name])
      else ([''time'', ''step'', name], [''longitude'', ''latitude'']))"
  by (simp add: level_dims_def Let_def concat_dims_def identical_dims_def py_insert_3_pair)


lemma require_group_counter:
  "require_group (st\<lparr>unknown_counter := c\<rparr>) p n
     = (fst (require_group st p n)\<lparr>unknown_counter := c\<rparr>, snd (require_group st p n))"
  by (simp add: require_group_def Let_def)

lemma require_group_snd: "snd (require_group st p n) = child_path p n"
  by (simp add: require_group_def Let_def)

lemma require_group_fields:
  "aggregations (fst (require_group st p n)) = aggregations st"
  "aggregation_dims (fst (require_group st p n)) = aggregation_dims st"
  "unknown_counter (fst (require_group st p n)) = unknown_counter st"
  by (simp_all add: require_group_def Let_def)

lemma set_attr_counter:
  "set_attr (st\<lparr>unknown_counter := c\<rparr>) p k v = (set_attr st p k v)\<lparr>unknown_counter := c\<rparr>"
  by (simp add: set_attr_def group_attrs_def)

lemma set_attr_fields:
  "aggregations (set_attr st p k v) = aggregations st"
  "aggregation_dims (set_attr st p k v) = aggregation_dims st"
  "unknown_counter (set_attr st p k v) = unknown_counter st"
  by (simp_all add: set_attr_def)

lemma group_attrs_counter: "group_attrs (st\<lparr>unknown_counter := c\<rparr>) p = group_attrs st p"
  by (simp add: group_attrs_def)

lemma nest_groups_counter:
  "nest_groups (st\<lparr>unknown_counter := c\<rparr>) zg gf
     = (fst (nest_groups st zg gf)\<lparr>unknown_counter := c\<rparr>, snd (nest_groups st zg gf))"
proof (induction gf arbitrary: st zg)
  case Nil
  show ?case by simp
next
  case (Cons kv gf)
  obtain k v where kv: "kv = (k, v)" by (cases kv)
  show ?case
    by (simp add: kv require_group_counter set_attr_counter Cons.IH split: prod.splits)
qed

lemma nest_groups_fields:
  "aggregations (fst (nest_groups st zg gf)) = aggregations st
   \<and> aggregation_dims (fst (nest_groups st zg gf)) = aggregation_dims st
   \<and> unknown_counter (fst (nest_groups st zg gf)) = unknown_counter st
   \<and> snd (nest_groups st zg gf) = foldl child_path zg (filter (\<lambda>v. v \<noteq> []) (map snd gf))"
proof (induction gf arbitrary: st zg)
  case Nil
  show ?case by simp
next
  case (Cons kv gf)
  obtain k v where kv: "kv = (k, v)" by (cases kv)
  show ?case
  proof (cases "v = []")
    case True
    then show ?thesis using Cons.IH [of st zg] by (simp add: kv)
  next
    case False
    obtain st1 q where r: "require_group st zg v = (st1, q)" by (cases "require_group st zg v")
    have q: "q = child_path zg v" using require_group_snd [of st zg v] r by simp
    have f: "aggregations st1 = aggregations st" "aggregation_dims st1 = aggregation_dims st"
      "unknown_counter st1 = unknown_counter st"
      using require_group_fields [of st zg v] r by simp_all
    show ?thesis
      using Cons.IH [of "set_attr st1 q k (Some v)" q] False
      by (simp add: kv r q f set_attr_fields)
  qed
qed

lemma place_message_counter:
  "place_message (st\<lparr>unknown_counter := c\<rparr>) g cs vname dattrs
     = map_sum id (\<lambda>s. s\<lparr>unknown_counter := c\<rparr>) (place_message st g cs vname dattrs)"
  unfolding place_message_def Let_def
  by (simp add: require_group_counter nest_groups_counter set_attr_counter group_attrs_counter
      split: prod.splits sum.splits)

lemma place_message_fields:
  "place_message st g cs vname dattrs =
     (case track_levels (node_path vname dattrs)
             (map_of (collect_filters dattrs filters) ''typeOfLevel'') (refs g) (aggregation_dims st) of
        Inl e \<Rightarrow> Inl e
      | Inr ad \<Rightarrow> Inr (projr (place_message st g cs vname dattrs)))
   \<and> (\<forall>st'. place_message st g cs vname dattrs = Inr st' \<longrightarrow>
         aggregations st' = append_member (node_path vname dattrs) g (aggregations st)
         \<and> Inr (aggregation_dims st') = track_levels (node_path vname dattrs)
             (map_of (collect_filters dattrs filters) ''typeOfLevel'') (refs g) (aggregation_dims st)
         \<and> unknown_counter st' = unknown_counter st)"
proof -
  define gf where "gf = collect_filters dattrs filters"
  obtain st1 zg where r: "require_group st [] vname = (st1, zg)"
    by (cases "require_group st [] vname")
  have zg: "zg = child_path [] vname" using require_group_snd [of st "[]" vname] r by simp
  have f1: "aggregations st1 = aggregations st" "aggregation_dims st1 = aggregation_dims st"
      "unknown_counter st1 = unknown_counter st"
    using require_group_fields [of st "[]" vname] r by simp_all
  define st2 where "st2 = (if group_attrs st1 zg ''name'' = None
                 then set_attr st1 zg ''name'' (dattrs ''GRIB_name'') else st1)"
  have f2: "aggregations st2 = aggregations st" "aggregation_dims st2 = aggregation_dims st"
      "unknown_counter st2 = unknown_counter st"
    by (simp_all add: st2_def f1 set_attr_fields)
  obtain st3 zg' where n: "nest_groups st2 zg gf = (st3, zg')"
    by (cases "nest_groups st2 zg gf")
  have f3: "aggregations st3 = aggregations st" "aggregation_dims st3 = aggregation_dims st"
      "unknown_counter st3 = unknown_counter st" "zg' = node_path vname dattrs"
    using nest_groups_fields [of st2 zg gf] n by (simp_all add: f2 node_path_def zg gf_def)
  have pm: "place_message st g cs vname dattrs =
     (case track_levels zg' (map_of gf ''typeOfLevel'') (refs g) (aggregation_dims st) of
        Inl e \<Rightarrow> Inl e
      | Inr ad \<Rightarrow> Inr (set_attr st3 zg' ''coordinates'' (Some (py_join '' '' cs))
             \<lparr>aggregations := append_member zg' g (aggregations st), aggregation_dims := ad\<rparr>))"
    unfolding place_message_def Let_def
    by (simp add: r n gf_def [symmetric] st2_def [symmetric] set_attr_fields f3
        split: sum.splits)
  show ?thesis
    unfolding pm f3(4) [symmetric] gf_def [symmetric]
    by (auto split: sum.splits simp: set_attr_fields f3)
qed

lemma same_nodes_eq: "same_nodes a b \<longleftrightarrow> a = b\<lparr>unknown_counter := unknown_counter a\<rparr>"
  by (cases a; cases b) (auto simp: same_nodes_def)

lemma same_nodes_counter: "same_nodes (st\<lparr>unknown_counter := c\<rparr>) st"
  by (simp add: same_nodes_def)

lemma process_message_same_nodes:
  assumes "same_nodes a b"
  shows "rel_sum (\<lambda>e e'. True) same_nodes (process_message E a i g) (process_message E b j g)"
proof -
  from assms obtain c where a: "a = b\<lparr>unknown_counter := c\<rparr>"
    by (auto simp: same_nodes_eq)
  have p: "rel_sum (\<lambda>e e'. True) same_nodes
            (place_message (b\<lparr>unknown_counter := c\<rparr>) g cs v d) (place_message b g cs v d)" for cs v d
    unfolding place_message_counter
    by (cases "place_message b g cs v d") (simp_all add: same_nodes_counter)
  show ?thesis
    unfolding a process_message_def Let_def
    by (auto split: option.splits sum.splits simp: p same_nodes_def)
qed

lemma process_messages_same_nodes:
  "same_nodes a b \<Longrightarrow>
   rel_sum (\<lambda>e e'. True) same_nodes (process_messages E a i gs) (process_messages E b j gs)"
proof (induction gs arbitrary: a b i j)
  case Nil
  then show ?case by simp
next
  case (Cons g gs)
  from process_message_same_nodes [OF Cons.prems, of E i g j]
  show ?case
    by (cases "process_message E a i g"; cases "process_message E b j g")
       (simp_all add: Cons.IH)
qed

lemma process_messages_append:
  "process_messages E st i (xs @ ys) =
     (case process_messages E st i xs of
        Inl e \<Rightarrow> Inl e
      | Inr st' \<Rightarrow> process_messages E st' (i + length xs) ys)"
  by (induction xs arbitrary: st i) (simp_all split: sum.splits)

lemma same_nodes_manifest:
  "same_nodes a b \<Longrightarrow> build_manifest E a = build_manifest E b"
  by (simp add: same_nodes_def aggregation_args_def build_manifest_def split: sum.splits)

lemma outcome_after:
  assumes "rel_sum (\<lambda>e e'. True) same_nodes r r'"
  shows "outcome (case r of Inl e \<Rightarrow> Inl e | Inr st \<Rightarrow> build_manifest E st)
       = outcome (case r' of Inl e \<Rightarrow> Inl e | Inr st \<Rightarrow> build_manifest E st)"
  using assms by (cases r; cases r') (simp_all add: outcome_def same_nodes_manifest)

lemma find_data_var_None:
  "find_data_var cs rs = None \<longleftrightarrow>
     (\<forall>(key, entry) \<in> set rs. first_segment CHR ''/'' key \<in> {''.zattrs'', ''.zgroup''} \<union> set cs)"
  by (induction cs rs rule: find_data_var.induct) (auto simp: Let_def)

lemma find_data_var_Some:
  "find_data_var cs rs = Some v \<Longrightarrow>
     v \<notin> {''.zattrs'', ''.zgroup''} \<and> v \<notin> set cs
     \<and> (\<exists>(key, entry) \<in> set rs. v = first_segment CHR ''/'' key)"
  by (induction cs rs rule: find_data_var.induct) (auto simp: Let_def split: if_splits)

lemma unknown_dropped:
  assumes "\<And>st i. process_message E st i g = Inr (st\<lparr>unknown_counter := unknown_counter st + 1\<rparr>)"
  shows "outcome (grib_tree E (before @ g # after)) = outcome (grib_tree E (before @ after))"
proof (cases "process_messages E init_state 0 before")
  case (Inl e)
  then show ?thesis by (simp add: grib_tree_def process_messages_append outcome_def)
next
  case (Inr st)
  have "rel_sum (\<lambda>e e'. True) same_nodes
          (process_messages E (st\<lparr>unknown_counter := unknown_counter st + 1\<rparr>)
             (Suc (length before)) after)
          (process_messages E st (length before) after)"
    by (rule process_messages_same_nodes) (rule same_nodes_counter)
  from outcome_after [OF this, of E] show ?thesis
    by (simp add: grib_tree_def process_messages_append Inr assms)
qed


lemma first_segment_examples:
  "first_segment CHR ''/'' ''heightAboveGround/0'' = ''heightAboveGround''"
  "first_segment CHR ''/'' ''heightAboveGround/.zattrs'' = ''heightAboveGround''"
  "first_segment CHR ''/'' ''latitude/0'' = ''latitude''"
  "first_segment CHR ''/'' ''.zattrs'' = ''.zattrs''"
  "first_segment CHR ''/'' ''.zgroup'' = ''.zgroup''"
  "first_segment CHR ''/'' ''t2m/.zattrs'' = ''t2m''"
  "first_segment CHR ''/'' ''t2m/0.0'' = ''t2m''"
  "first_segment CHR ''/'' ''unknown/.zattrs'' = ''unknown''"
  "first_segment CHR ''/'' ''unknown/0.0'' = ''unknown''"
  by (simp_all add: first_segment_def)

lemma example_coordinates_split:
  "py_split CHR '' '' ''heightAboveGround latitude longitude step time'' = example_coordinates"
  by (simp add: example_coordinates_def)

lemma example_find_data_var:
  "find_data_var example_coordinates (refs (level_message ''t2m'' lvl)) = Some ''t2m''"
  "find_data_var example_coordinates (refs (level_message ''unknown'' lvl)) = Some ''unknown''"
  by (cases lvl; simp add: level_message_def first_segment_examples example_coordinates_def)+

lemma example_collect_filters:
  "collect_filters example_dattrs filters
     = [(''stepType'', ''instant''), (''typeOfLevel'', ''heightAboveGround'')]"
  by (simp add: filters_def example_dattrs_def)

lemma example_node_path: "node_path ''t2m'' example_dattrs = example_path"
  by (simp add: node_path_def example_collect_filters child_path_def example_path_def)

lemma example_track_levels:
  "track_levels p (Some ''heightAboveGround'') (refs (level_message ''t2m'' lvl)) ad
     = Inr (case lvl of None \<Rightarrow> ad
            | Some l \<Rightarrow> ad(p \<mapsto> insert (VStr l) (case ad p of None \<Rightarrow> {} | Some s \<Rightarrow> s)))"
  by (cases lvl) (simp_all add: level_message_def first_segment_examples endswith_def unhashable_def)

lemma example_message_facts:
  "version (level_message v lvl) = 1"
  "map_of (refs (level_message v lvl)) ''.zattrs'' = Some (VStr ''group-attrs'')"
  "map_of (refs (level_message ''t2m'' lvl)) ''t2m/.zattrs'' = Some (VStr ''var-attrs'')"
  "loads example_ext (VStr ''group-attrs'')
     = Inr [''coordinates'' \<mapsto> ''heightAboveGround latitude longitude step time'']"
  "loads example_ext (VStr ''var-attrs'') = Inr example_dattrs"
  by (cases lvl; simp add: level_message_def example_ext_def example_dattrs_def)+

lemma example_process_message:
  "process_message example_ext st i (level_message ''t2m'' lvl)
     = place_message st (level_message ''t2m'' lvl) example_coordinates ''t2m'' example_dattrs"
  unfolding process_message_def
  by (simp add: example_message_facts example_find_data_var [unfolded example_coordinates_def]
      example_coordinates_def)

lemma example_step:
  "\<exists>st'. process_message example_ext st i (level_message ''t2m'' lvl) = Inr st'
     \<and> aggregations st' = append_member example_path (level_message ''t2m'' lvl) (aggregations st)
     \<and> aggregation_dims st'
         = (case lvl of None \<Rightarrow> aggregation_dims st
            | Some l \<Rightarrow> (aggregation_dims st)(example_path \<mapsto>
                 insert (VStr l) (case aggregation_dims st example_path of None \<Rightarrow> {} | Some s \<Rightarrow> s)))
     \<and> unknown_counter st' = unknown_counter st"
proof -
  let ?p = "place_message st (level_message ''t2m'' lvl) example_coordinates ''t2m'' example_dattrs"
  note f = place_message_fields [of st "level_message ''t2m'' lvl" example_coordinates "''t2m''"
      example_dattrs, unfolded example_node_path example_collect_filters, simplified,
      unfolded example_track_levels]
  from f have "?p = Inr (projr ?p)" by simp
  with f show ?thesis unfolding example_process_message by (cases ?p) auto
qed


lemma example_last_segment: "last_segment CHR ''/'' example_path = ''heightAboveGround''"
  by (simp add: last_segment_def example_path_def)


lemma two_messages_manifest:
  "\<exists>m. grib_tree example_ext
           [level_message ''t2m'' (Some ''2''), level_message ''t2m'' (Some ''2'')] = Inr m
     \<and> map fst (m_refs m)
         = [''t2m/instant/heightAboveGround/heightAboveGround/.zattrs'',
            ''t2m/instant/heightAboveGround/heightAboveGround/0'',
            ''t2m/instant/heightAboveGround/t2m/.zattrs'',
            ''t2m/instant/heightAboveGround/t2m/0.0'']"
proof -
  let ?m = "level_message ''t2m'' (Some ''2'')"
  obtain s1 where s1: "process_message example_ext init_state 0 ?m = Inr s1"
    and a1: "aggregations s1 = [(example_path, [?m])]"
    and d1: "aggregation_dims s1 example_path = Some {VStr ''2''}"
    using example_step [of init_state 0 "Some ''2''"] by (auto simp: init_state_def)
  obtain s2 where s2: "process_message example_ext s1 (Suc 0) ?m = Inr s2"
    and a2: "aggregations s2 = [(example_path, [?m, ?m])]"
    and d2: "aggregation_dims s2 example_path = Some {VStr ''2''}"
    using example_step [of s1 "Suc 0" "Some ''2''"] a1 d1 by auto
  have n: "level_dimension_value_count (aggregation_dims s2) example_path = 1"
    by (simp add: level_dimension_value_count_def d2)
  have args: "aggregation_args s2
     = [(example_path, [?m, ?m], [''time'', ''step''],
         [''longitude'', ''latitude'', ''heightAboveGround''])]"
    by (simp add: aggregation_args_def a2 level_dims_cases n example_last_segment)
  have tr: "translate example_ext [?m, ?m] c i = Inr (refs ?m @ refs ?m)" for c i
    by (simp add: example_ext_def)
  have w: "write_refs example_path (refs ?m @ refs ?m) []
     = [(''t2m/instant/heightAboveGround/heightAboveGround/.zattrs'', VStr ''coord-attrs''),
        (''t2m/instant/heightAboveGround/heightAboveGround/0'', VStr ''2''),
        (''t2m/instant/heightAboveGround/t2m/.zattrs'', VStr ''var-attrs''),
        (''t2m/instant/heightAboveGround/t2m/0.0'',
           VList [VStr ''s3://bucket/f.grib2'', VInt 0, VInt 100])]"
    by (simp add: level_message_def example_path_def)
  have "build_manifest example_ext s2
     = Inr \<lparr>m_groups = groups s2, m_refs = write_refs example_path (refs ?m @ refs ?m) [],
            m_version = 1\<rparr>"
    unfolding build_manifest_def args by (simp add: tr w)
  then show ?thesis
    by (simp add: grib_tree_def s1 s2 w)
qed





text \<open>
  C8. For a message of version 1 whose group attributes decode and name the coordinates,
  \<open>grib_tree\<close> takes as the primary variable the first top-level entry name that is
  neither \<open>.zattrs\<close> nor \<open>.zgroup\<close> nor a coordinate. When there is none (every
  name is metadata or a coordinate) the message raises the RuntimeError that carries
  its number, and so does the whole call. When the name is \<open>unknown\<close> the message
  changes nothing but the drop counter, which grows by one, and the call returns the
  manifest it returns for the same input without that message (and fails exactly when
  that one fails).
\<close>

theorem grib_tree_primary_variable:
  assumes "version g = 1" and "map_of (refs g) ''.zattrs'' = Some z"
    and "loads E z = Inr gattrs" and "gattrs ''coordinates'' = Some cs"
  shows "case find_data_var (py_split CHR '' '' cs) (refs g) of
           None \<Rightarrow>
             (\<forall>(key, entry) \<in> set (refs g).
                first_segment CHR ''/'' key \<in> {''.zattrs'', ''.zgroup''} \<union> set (py_split CHR '' '' cs))
             \<and> process_message E st i g = Inl (RuntimeError i)
             \<and> (\<exists>e. grib_tree E (before @ g # after) = Inl e)
         | Some vname \<Rightarrow>
             vname \<notin> {''.zattrs'', ''.zgroup''} \<and> vname \<notin> set (py_split CHR '' '' cs)
             \<and> (\<exists>(key, entry) \<in> set (refs g). vname = first_segment CHR ''/'' key)
             \<and> (vname = ''unknown'' \<longrightarrow>
                  process_message E st i g = Inr (st\<lparr>unknown_counter := unknown_counter st + 1\<rparr>)
                  \<and> outcome (grib_tree E (before @ g # after)) = outcome (grib_tree E (before @ after)))"
proof (cases "find_data_var (py_split CHR '' '' cs) (refs g)")
  case None
  have pm: "process_message E st i g = Inl (RuntimeError i)" for st i
    by (simp add: process_message_def assms None)
  have "\<exists>e. grib_tree E (before @ g # after) = Inl e"
    by (cases "process_messages E init_state 0 before")
       (simp_all add: grib_tree_def process_messages_append pm)
  with None pm show ?thesis
    using find_data_var_None [of "py_split CHR '' '' cs" "refs g"] by simp
next
  case (Some vname)
  have pm: "process_message E st i g = Inr (st\<lparr>unknown_counter := unknown_counter st + 1\<rparr>)"
    if "vname = ''unknown''" for st i
    using that by (simp add: process_message_def assms Some)
  from Some show ?thesis
    using find_data_var_Some [OF Some] unknown_dropped [of E g before after] pm
    by auto
qed

lemma example_write_refs:
  "write_refs example_path (refs (level_message ''t2m'' (Some l))) store
     = dict_set ''t2m/instant/heightAboveGround/t2m/0.0''
         (VList [VStr ''s3://bucket/f.grib2'', VInt 0, VInt 100])
        (dict_set ''t2m/instant/heightAboveGround/t2m/.zattrs'' (VStr ''var-attrs'')
          (dict_set ''t2m/instant/heightAboveGround/heightAboveGround/0'' (VStr l)
            (dict_set ''t2m/instant/heightAboveGround/heightAboveGround/.zattrs'' (VStr ''coord-attrs'')
               store)))"
  by (simp add: level_message_def example_path_def)


theorem grib_tree_primary_variable_witness:
  "process_message example_ext init_state 0 unknown_message
     = Inr (init_state\<lparr>unknown_counter := 1\<rparr>)
   \<and> outcome (grib_tree example_ext
                 [level_message ''t2m'' (Some ''2''), unknown_message, level_message ''t2m'' (Some ''2'')])
       = outcome (grib_tree example_ext
                 [level_message ''t2m'' (Some ''2''), level_message ''t2m'' (Some ''2'')])
   \<and> grib_tree example_ext [unknown_message]
       = Inr \<lparr>m_groups = [[] \<mapsto> Map.empty], m_refs = [], m_version = 1\<rparr>
   \<and> process_message example_ext init_state 0 coordinates_only = Inl (RuntimeError 0)
   \<and> (\<exists>m. grib_tree example_ext
                 [level_message ''t2m'' (Some ''2''), unknown_message, level_message ''t2m'' (Some ''2'')]
               = Inr m
           \<and> map fst (m_refs m)
               = [''t2m/instant/heightAboveGround/heightAboveGround/.zattrs'',
                  ''t2m/instant/heightAboveGround/heightAboveGround/0'',
                  ''t2m/instant/heightAboveGround/t2m/.zattrs'',
                  ''t2m/instant/heightAboveGround/t2m/0.0''])"
proof -
  let ?ga = "[''coordinates'' \<mapsto> ''heightAboveGround latitude longitude step time'']"
  have u: "find_data_var (py_split CHR '' '' ''heightAboveGround latitude longitude step time'')
             (refs unknown_message) = Some ''unknown''"
    unfolding example_coordinates_split unknown_message_def by (rule example_find_data_var)
  have c: "find_data_var (py_split CHR '' '' ''heightAboveGround latitude longitude step time'')
             (refs coordinates_only) = None"
    by (simp add: coordinates_only_def first_segment_examples)
  have cf: "version coordinates_only = 1"
    "map_of (refs coordinates_only) ''.zattrs'' = Some (VStr ''group-attrs'')"
    by (simp_all add: coordinates_only_def)
  note t = grib_tree_primary_variable [of _ "VStr ''group-attrs''" example_ext ?ga
      "''heightAboveGround latitude longitude step time''"]
  note tu = t [of unknown_message, unfolded unknown_message_def, OF example_message_facts(1,2,4),
      folded unknown_message_def, unfolded u, simplified]
  note tc = t [of coordinates_only, OF cf example_message_facts(4), unfolded c, simplified]
  have 1: "process_message example_ext init_state 0 unknown_message
     = Inr (init_state\<lparr>unknown_counter := 1\<rparr>)"
    using tu [of init_state 0] by (simp add: init_state_def)
  have 2: "outcome (grib_tree example_ext
                 ([level_message ''t2m'' (Some ''2'')] @ unknown_message # [level_message ''t2m'' (Some ''2'')]))
       = outcome (grib_tree example_ext
                 ([level_message ''t2m'' (Some ''2'')] @ [level_message ''t2m'' (Some ''2'')]))"
    using tu by blast
  have 3: "grib_tree example_ext [unknown_message]
       = Inr \<lparr>m_groups = [[] \<mapsto> Map.empty], m_refs = [], m_version = 1\<rparr>"
    by (simp add: grib_tree_def 1) (simp add: build_manifest_def aggregation_args_def init_state_def)
  have 4: "process_message example_ext init_state 0 coordinates_only = Inl (RuntimeError 0)"
    using tc by blast
  obtain m where m: "grib_tree example_ext
           [level_message ''t2m'' (Some ''2''), level_message ''t2m'' (Some ''2'')] = Inr m"
    and k: "map fst (m_refs m)
         = [''t2m/instant/heightAboveGround/heightAboveGround/.zattrs'',
            ''t2m/instant/heightAboveGround/heightAboveGround/0'',
            ''t2m/instant/heightAboveGround/t2m/.zattrs'',
            ''t2m/instant/heightAboveGround/t2m/0.0'']"
    using two_messages_manifest by auto
  have 5: "grib_tree example_ext
             [level_message ''t2m'' (Some ''2''), unknown_message, level_message ''t2m'' (Some ''2'')]
           = Inr m"
    using 2 m
    by (cases "grib_tree example_ext
             [level_message ''t2m'' (Some ''2''), unknown_message, level_message ''t2m'' (Some ''2'')]")
       (simp_all add: outcome_def)
  from 1 2 3 4 5 k show ?thesis by simp
qed


section \<open>extract_dataset_chunk_index: records\<close>

lemma example_extract:
  "extract_dataset_chunk_index example_chunks example_dataset example_store True = Inr example_records"
  by code_simp

lemma map_of_dict_set: "map_of (dict_set k v d) k' = (if k' = k then Some v else map_of d k')"
  by (induction k v d rule: dict_set.induct) auto

lemma keys_dict_set: "fst ` set (dict_set k v d) = insert k (fst ` set d)"
  by (induction k v d rule: dict_set.induct) auto

lemma distinct_dict_set: "distinct (map fst d) \<Longrightarrow> distinct (map fst (dict_set k v d))"
  by (induction k v d rule: dict_set.induct) (auto simp: keys_dict_set)

lemma map_of_dict_update:
  "distinct (map fst e) \<Longrightarrow>
   map_of (dict_update d e) k = (case map_of e k of Some v \<Rightarrow> Some v | None \<Rightarrow> map_of d k)"
proof (induction e arbitrary: d)
  case Nil
  show ?case by simp
next
  case (Cons kv e)
  obtain k' v' where kv: "kv = (k', v')" by (cases kv)
  from Cons.prems have d: "distinct (map fst e)" and n: "k' \<notin> fst ` set e"
    by (auto simp: kv)
  from n have m: "map_of e k' = None" by (simp add: map_of_eq_None_iff)
  show ?case
    using Cons.IH [OF d, of "dict_set k' v' d"] m
    by (auto simp: kv map_of_dict_set split: option.splits)
qed

lemma walk_up_lookup:
  "wf_node g \<Longrightarrow>
   map_of (walk_up attributes g) k =
     (case ancestor_value g k of Some v \<Rightarrow> Some v | None \<Rightarrow> map_of attributes k)"
proof (induction g arbitrary: attributes)
  case (GroupNode a parent)
  show ?case
  proof (cases parent)
    case None
    with GroupNode.prems show ?thesis by (simp add: map_of_dict_update)
  next
    case (Some p)
    with GroupNode.prems have w: "wf_node p" and d: "distinct (map fst a)" by simp_all
    have "map_of (walk_up (dict_update attributes a) p) k =
      (case ancestor_value p k of Some v \<Rightarrow> Some v | None \<Rightarrow> map_of (dict_update attributes a) k)"
      using GroupNode.IH [of p "dict_update attributes a"] Some w by simp
    then show ?thesis
      by (simp add: Some map_of_dict_update [OF d] split: option.splits)
  qed
qed

lemma add_kwargs_Inr:
  "add_kwargs kw more_kw = Inr r \<Longrightarrow> r = kw @ more_kw \<and> fst ` set kw \<inter> fst ` set more_kw = {}"
proof -
  assume a: "add_kwargs kw more_kw = Inr r"
  then have n: "\<not> list_ex (\<lambda>k. k \<in> set (map fst kw)) (map fst more_kw)" and r: "r = kw @ more_kw"
    by (auto simp: add_kwargs_def split: if_splits)
  from n have "\<forall>k \<in> set (map fst more_kw). k \<notin> set (map fst kw)"
    by (simp add: list_ex_iff)
  then have "set (map fst kw) \<inter> set (map fst more_kw) = {}" by blast
  with r show ?thesis by simp
qed

lemma make_record_Inr:
  assumes "make_record dname attributes coord_vals chunk_data = Inr r"
  shows "r = (''varname'', VStr dname) # attributes @ coord_vals @ chunk_data"
    and "''varname'' \<notin> fst ` set attributes"
    and "fst ` set chunk_data \<inter> (insert ''varname'' (fst ` set attributes \<union> fst ` set coord_vals)) = {}"
proof -
  from assms obtain kw1 kw2 where
    1: "add_kwargs [(''varname'', VStr dname)] attributes = Inr kw1"
    and 2: "add_kwargs kw1 coord_vals = Inr kw2"
    and 3: "add_kwargs kw2 chunk_data = Inr r"
    by (auto simp: make_record_def split: sum.splits)
  note a = add_kwargs_Inr [OF 1] add_kwargs_Inr [OF 2] add_kwargs_Inr [OF 3]
  from a show "r = (''varname'', VStr dname) # attributes @ coord_vals @ chunk_data" by simp
  from a show "''varname'' \<notin> fst ` set attributes" by auto
  from a show "fst ` set chunk_data \<inter> (insert ''varname'' (fst ` set attributes \<union> fst ` set coord_vals)) = {}"
    by auto
qed

lemma make_record_attributes:
  assumes "make_record dname attributes coord_vals chunk_data = Inr r"
    and "map_of attributes k = Some v"
  shows "map_of r k = Some v"
proof -
  from assms(2) have "k \<in> fst ` set attributes" by (metis map_of_eq_None_iff option.distinct(1))
  with make_record_Inr(2) [OF assms(1)] have "k \<noteq> ''varname''" by blast
  then show ?thesis
    using make_record_Inr(1) [OF assms(1)] assms(2) by (simp add: map_add_def)
qed

lemma make_record_chunk_data:
  assumes "make_record dname attributes coord_vals chunk_data = Inr r"
    and "k \<in> fst ` set chunk_data"
  shows "map_of r k = map_of chunk_data k"
proof -
  from make_record_Inr(3) [OF assms(1)] assms(2)
  have "k \<noteq> ''varname''" "k \<notin> fst ` set attributes" "k \<notin> fst ` set coord_vals" by blast+
  then have "map_of attributes k = None" "map_of coord_vals k = None"
    by (simp_all add: map_of_eq_None_iff)
  with \<open>k \<noteq> ''varname''\<close> show ?thesis
    using make_record_Inr(1) [OF assms(1)] by (simp add: map_add_def)
qed

lemma chunk_data_of_Some:
  assumes "chunk_data_of key chunk_ref = Inr (Some cd)"
  shows "(\<exists>u off len. chunk_ref = Some (VList [u, off, len])
            \<and> cd = [(''uri'', u), (''offset'', off), (''length'', len), (''inline_value'', VNone)])
       \<or> (\<exists>v. chunk_ref = Some v \<and> is_inline v
            \<and> cd = [(''inline_value'', v), (''offset'', VInt (- 1)), (''length'', VInt (- 1))])"
  using assms
  by (auto simp: chunk_data_of_def is_inline_def split: option.splits val.splits list.splits)

lemma chunk_record_emitted:
  "chunk_record grib ref_store dpath attributes dname dvar index_dims idx' = Inr (Some r) \<Longrightarrow>
   emitted ref_store attributes r"
  unfolding chunk_record_def Let_def emitted_def
  by (auto split: sum.splits option.splits simp: map_sum_def)

lemma chunks_loop_emitted:
  "chunks_loop grib ref_store dpath attributes dname dvar index_dims idxs result = Inr rs \<Longrightarrow>
   r \<in> set rs \<Longrightarrow> r \<in> set result \<or> emitted ref_store attributes r"
proof (induction idxs arbitrary: result)
  case Nil
  then show ?case by simp
next
  case (Cons i idxs)
  show ?case
  proof (cases "chunk_record grib ref_store dpath attributes dname dvar index_dims i")
    case (Inl e)
    with Cons.prems show ?thesis by simp
  next
    case (Inr opt)
    show ?thesis
    proof (cases opt)
      case None
      with Inr Cons show ?thesis by simp
    next
      case (Some r')
      with Inr Cons.prems have
        "chunks_loop grib ref_store dpath attributes dname dvar index_dims idxs (result @ [r']) = Inr rs"
        by simp
      from Cons.IH [OF this Cons.prems(2)] chunk_record_emitted [of grib ref_store dpath attributes dname dvar index_dims i r'] Inr Some
      show ?thesis by auto
    qed
  qed
qed

lemma var_records_emitted:
  "var_records zc grib ref_store dpath attributes dv result = Inr rs \<Longrightarrow>
   r \<in> set rs \<Longrightarrow> r \<in> set result \<or> emitted ref_store attributes r"
  unfolding var_records_def
  by (auto split: prod.splits option.splits sum.splits dest: chunks_loop_emitted)

lemma vars_loop_emitted:
  "vars_loop zc grib ref_store dpath attributes dvs result = Inr rs \<Longrightarrow>
   r \<in> set rs \<Longrightarrow> r \<in> set result \<or> emitted ref_store attributes r"
proof (induction dvs arbitrary: result)
  case Nil
  then show ?case by simp
next
  case (Cons dv dvs)
  then obtain res' where v: "var_records zc grib ref_store dpath attributes dv result = Inr res'"
    and l: "vars_loop zc grib ref_store dpath attributes dvs res' = Inr rs"
    by (auto split: sum.splits)
  from Cons.IH [OF l Cons.prems(2)] var_records_emitted [OF v, of r]
  show ?case by blast
qed

lemma extract_emitted:
  "extract_dataset_chunk_index zc dset ref_store grib = Inr rs \<Longrightarrow> r \<in> set rs \<Longrightarrow>
   emitted ref_store (merged_attributes dset) r"
  unfolding extract_dataset_chunk_index_def
  by (drule vars_loop_emitted) auto

lemma emitted_location:
  assumes "emitted ref_store attributes r"
  shows "(\<exists>key u off len. ref_store key = Some (VList [u, off, len])
            \<and> map_of r ''uri'' = Some u \<and> map_of r ''offset'' = Some off
            \<and> map_of r ''length'' = Some len \<and> map_of r ''inline_value'' = Some VNone)
       \<or> (\<exists>key v. ref_store key = Some v \<and> is_inline v
            \<and> map_of r ''inline_value'' = Some v \<and> map_of r ''offset'' = Some (VInt (- 1))
            \<and> map_of r ''length'' = Some (VInt (- 1)))"
proof -
  from assms obtain dname coord_vals key cd where
    c: "chunk_data_of key (ref_store key) = Inr (Some cd)"
    and m: "make_record dname attributes coord_vals cd = Inr r"
    by (auto simp: emitted_def)
  from chunk_data_of_Some [OF c] show ?thesis
  proof
    assume "\<exists>u off len. ref_store key = Some (VList [u, off, len])
            \<and> cd = [(''uri'', u), (''offset'', off), (''length'', len), (''inline_value'', VNone)]"
    then obtain u off len where s: "ref_store key = Some (VList [u, off, len])"
      and cd: "cd = [(''uri'', u), (''offset'', off), (''length'', len), (''inline_value'', VNone)]"
      by blast
    have "map_of r ''uri'' = Some u" "map_of r ''offset'' = Some off"
      "map_of r ''length'' = Some len" "map_of r ''inline_value'' = Some VNone"
      using make_record_chunk_data [OF m, of "''uri''"] make_record_chunk_data [OF m, of "''offset''"]
        make_record_chunk_data [OF m, of "''length''"] make_record_chunk_data [OF m, of "''inline_value''"]
      by (simp_all add: cd)
    with s show ?thesis by blast
  next
    assume "\<exists>v. ref_store key = Some v \<and> is_inline v
            \<and> cd = [(''inline_value'', v), (''offset'', VInt (- 1)), (''length'', VInt (- 1))]"
    then obtain v where s: "ref_store key = Some v" and i: "is_inline v"
      and cd: "cd = [(''inline_value'', v), (''offset'', VInt (- 1)), (''length'', VInt (- 1))]"
      by blast
    have "map_of r ''inline_value'' = Some v" "map_of r ''offset'' = Some (VInt (- 1))"
      "map_of r ''length'' = Some (VInt (- 1))"
      using make_record_chunk_data [OF m, of "''offset''"]
        make_record_chunk_data [OF m, of "''length''"] make_record_chunk_data [OF m, of "''inline_value''"]
      by (simp_all add: cd)
    with s i show ?thesis by blast
  qed
qed


lemma merged_attributes_lookup:
  "(case ds_tree dset of
      Some (p, Some parent) \<Rightarrow>
        wf_node parent \<longrightarrow>
          (\<forall>k. map_of (merged_attributes dset) k =
                 (case ancestor_value parent k of
                    Some v \<Rightarrow> Some v
                  | None \<Rightarrow> map_of (ds_attrs dset) k))
    | _ \<Rightarrow> merged_attributes dset = ds_attrs dset)"
  by (auto simp: merged_attributes_def walk_up_lookup split: option.splits prod.splits)


lemma example_wf: "wf_node example_parent"
  by (simp add: example_parent_def)

lemma example_ancestor_values:
  "ancestor_value example_parent ''name'' = Some (VStr ''2 metre temperature'')"
  "ancestor_value example_parent ''typeOfLevel'' = None"
  by (simp_all add: example_parent_def)


text \<open>
  C3. Every record \<open>extract_dataset_chunk_index\<close> returns has exactly one of the two
  location forms. Either it came from a three-element list entry of the manifest and
  has \<open>uri\<close>, \<open>offset\<close> and \<open>length\<close> set to its elements and \<open>inline_value\<close> None, or
  it came from a text or bytes entry and has that entry as \<open>inline_value\<close> and -1 as
  \<open>offset\<close> and \<open>length\<close>. No record has an \<open>inline_value\<close> other than None together
  with an \<open>offset\<close> other than -1.
\<close>

theorem chunk_location_forms:
  assumes "extract_dataset_chunk_index zarray_chunks dset ref_store grib = Inr rs"
    and "r \<in> set rs"
  shows "((byte_range_form r \<and> \<not> inline_form r
           \<and> (\<exists>key u off len. ref_store key = Some (VList [u, off, len])
                 \<and> map_of r ''uri'' = Some u \<and> map_of r ''offset'' = Some off
                 \<and> map_of r ''length'' = Some len))
         \<or> (inline_form r \<and> \<not> byte_range_form r
           \<and> (\<exists>key v. ref_store key = Some v \<and> is_inline v \<and> map_of r ''inline_value'' = Some v)))
       \<and> \<not> (\<exists>v. map_of r ''inline_value'' = Some v \<and> v \<noteq> VNone
               \<and> map_of r ''offset'' \<noteq> Some (VInt (- 1)))"
  using emitted_location [OF extract_emitted [OF assms]]
  by (auto simp: byte_range_form_def inline_form_def is_inline_def)


theorem chunk_location_forms_witness:
  "extract_dataset_chunk_index example_chunks example_dataset example_store True = Inr example_records
   \<and> byte_range_form (example_records ! 0) \<and> \<not> inline_form (example_records ! 0)
   \<and> inline_form (example_records ! 1) \<and> \<not> byte_range_form (example_records ! 1)"
proof -
  note e = example_extract
  have m: "example_records ! 0 \<in> set example_records" "example_records ! 1 \<in> set example_records"
    by (simp_all add: example_records_def)
  have i: "map_of (example_records ! 0) ''inline_value'' = Some VNone"
    "map_of (example_records ! 1) ''inline_value'' = Some (VStr ''base64:AAAA'')"
    by (simp_all add: example_records_def)
  from chunk_location_forms [OF e m(1)] i(1)
  have 0: "byte_range_form (example_records ! 0) \<and> \<not> inline_form (example_records ! 0)"
    by (auto simp: inline_form_def is_inline_def)
  from chunk_location_forms [OF e m(2)] i(2)
  have 1: "inline_form (example_records ! 1) \<and> \<not> byte_range_form (example_records ! 1)"
    by (auto simp: byte_range_form_def)
  from e 0 1 show ?thesis by simp
qed

text \<open>
  C2 (as amended). Every record \<open>extract_dataset_chunk_index\<close> returns carries the
  merged group attributes: each attribute of the merge is in the record with the merged
  value. The merge starts from the attributes of the variable's own node and is updated
  with the attributes of each ancestor in turn, from the parent up to the root, so an
  attribute an ancestor sets replaces a same-named attribute of the node: the value of
  the ancestor highest up wins, and the node's own value stays only where no ancestor
  has the attribute.
\<close>

theorem record_carries_merged_attributes:
  assumes "extract_dataset_chunk_index zarray_chunks dset ref_store grib = Inr rs"
    and "r \<in> set rs"
  shows "(\<forall>k v. map_of (merged_attributes dset) k = Some v \<longrightarrow> map_of r k = Some v)
       \<and> (case ds_tree dset of
             Some (p, Some parent) \<Rightarrow>
               wf_node parent \<longrightarrow>
                 (\<forall>k. map_of (merged_attributes dset) k =
                        (case ancestor_value parent k of
                           Some v \<Rightarrow> Some v
                         | None \<Rightarrow> map_of (ds_attrs dset) k))
           | _ \<Rightarrow> merged_attributes dset = ds_attrs dset)"
proof -
  from extract_emitted [OF assms] obtain dname coord_vals cd where
    m: "make_record dname (merged_attributes dset) coord_vals cd = Inr r"
    by (auto simp: emitted_def)
  have "map_of r k = Some v" if "map_of (merged_attributes dset) k = Some v" for k v
    using make_record_attributes [OF m that] .
  with merged_attributes_lookup [of dset] show ?thesis by blast
qed


theorem record_carries_merged_attributes_witness:
  "extract_dataset_chunk_index example_chunks example_dataset example_store True = Inr example_records
   \<and> wf_node example_parent
   \<and> map_of (merged_attributes example_dataset) ''name'' = Some (VStr ''2 metre temperature'')
   \<and> map_of (merged_attributes example_dataset) ''typeOfLevel'' = Some (VStr ''heightAboveGround'')
   \<and> map_of (example_records ! 1) ''name'' = Some (VStr ''2 metre temperature'')
   \<and> map_of (example_records ! 1) ''typeOfLevel'' = Some (VStr ''heightAboveGround'')"
proof -
  have m: "example_records ! 1 \<in> set example_records"
    by (simp add: example_records_def)
  note t = record_carries_merged_attributes [OF example_extract m]
  have t2: "map_of (merged_attributes example_dataset) k =
      (case ancestor_value example_parent k of
         Some v \<Rightarrow> Some v
       | None \<Rightarrow> map_of (ds_attrs example_dataset) k)" for k
    using conjunct2 [OF t] example_wf by (simp add: example_dataset_def)
  have a: "map_of (merged_attributes example_dataset) ''name'' = Some (VStr ''2 metre temperature'')"
    "map_of (merged_attributes example_dataset) ''typeOfLevel'' = Some (VStr ''heightAboveGround'')"
    by (simp_all add: t2 example_ancestor_values) (simp add: example_dataset_def)
  from conjunct1 [OF t] a have
    "map_of (example_records ! 1) ''name'' = Some (VStr ''2 metre temperature'')"
    "map_of (example_records ! 1) ''typeOfLevel'' = Some (VStr ''heightAboveGround'')"
    by blast+
  with example_extract example_wf a show ?thesis by simp
qed


text \<open>
  The specification's wording lets the closest node win. In the example the
  node has \<open>name = leaf\<close> and its grandparent \<open>name = 2 metre temperature\<close>; both
  records carry the grandparent's value.
\<close>

theorem closest_attribute_counterexample:
  "map_of (ds_attrs example_dataset) ''name'' = Some (VStr ''leaf'')
   \<and> extract_dataset_chunk_index example_chunks example_dataset example_store True
       = Inr example_records
   \<and> map_of (example_records ! 0) ''name'' = Some (VStr ''2 metre temperature'')
   \<and> map_of (example_records ! 1) ''name'' = Some (VStr ''2 metre temperature'')"
  by (simp add: example_extract) (simp add: example_dataset_def example_records_def)

section \<open>extract_dataset_chunk_index: index dimensions and manifest entries\<close>

lemma index_dims_loop_find:
  "index_dims_loop zs acc =
     (case find partial_chunk zs of
        Some (n, s, c) \<Rightarrow> Inl (ValueErrorChunkDim n)
      | None \<Rightarrow> Inr (dict_update acc (map (\<lambda>(n, s, c). (n, s)) (filter unit_chunk zs))))"
proof (induction zs arbitrary: acc)
  case Nil
  show ?case by simp
next
  case (Cons t zs)
  obtain n s c where t: "t = (n, s, c)" by (cases t)
  show ?case
    using Cons.IH by (auto simp: t partial_chunk_def unit_chunk_def split: option.splits)
qed

lemma index_dims_of_find:
  "index_dims_of dvar dchunk =
     (case find partial_chunk (dim_triples dvar dchunk) of
        Some (n, s, c) \<Rightarrow> Inl (ValueErrorChunkDim n)
      | None \<Rightarrow>
          Inr (dict_update [] (map (\<lambda>(n, s, c). (n, s)) (filter unit_chunk (dim_triples dvar dchunk)))))"
  using index_dims_loop_find [of "dim_triples dvar dchunk" "[]"]
  by (simp add: index_dims_of_def dim_triples_def)

lemma vars_loop_append:
  "vars_loop zc grib ref_store dpath attributes (vs @ ws) result =
     (case vars_loop zc grib ref_store dpath attributes vs result of
        Inl e \<Rightarrow> Inl e
      | Inr result' \<Rightarrow> vars_loop zc grib ref_store dpath attributes ws result')"
  by (induction vs arbitrary: result) (simp_all split: sum.splits)


lemma example_zarray_key:
  "build_path [dpath_of example_dataset, Some ''t2m''] (Some ''.zarray'')
     = ''t2m/instant/heightAboveGround/t2m/.zarray''"
  by (simp add: build_path_def dpath_of_def example_dataset_def)


lemma chunk_data_of_cases:
  "chunk_data_of key None = Inr None"
  "chunk_data_of key (Some VNone) = Inr None"
  "chunk_data_of key (Some (VList [u, off, len]))
     = Inr (Some [(''uri'', u), (''offset'', off), (''length'', len), (''inline_value'', VNone)])"
  "is_inline v \<Longrightarrow> chunk_data_of key (Some v)
     = Inr (Some [(''inline_value'', v), (''offset'', VInt (- 1)), (''length'', VInt (- 1))])"
  "v \<noteq> VNone \<Longrightarrow> \<not> is_inline v \<Longrightarrow> (\<And>u off len. v \<noteq> VList [u, off, len]) \<Longrightarrow>
     chunk_data_of key (Some v) = Inl (ValueErrorBadValue key v)"
  by (auto simp: chunk_data_of_def is_inline_def split: val.splits list.splits)


lemma example_chunk_keys:
  "chunk_key_of (dpath_of example_dataset) ''t2m'' example_var [0] (length (zip (map fst [(''time'', 2::nat)]) [0::nat]))
     = ''t2m/instant/heightAboveGround/t2m/0.0.0''"
  "chunk_key_of (dpath_of example_dataset) ''t2m'' example_var [1] (length (zip (map fst [(''time'', 2::nat)]) [1::nat]))
     = ''t2m/instant/heightAboveGround/t2m/1.0.0''"
  "chunk_key_of (dpath_of example_dataset) ''t2m'' example_var [5] (length (zip (map fst [(''time'', 2::nat)]) [5::nat]))
     = ''t2m/instant/heightAboveGround/t2m/5.0.0''"
  by code_simp+

lemma example_coord_loop:
  "coord_loop True (dpath_of example_dataset) ''t2m'' (zip (map fst [(''time'', 2::nat)]) [0])
     (coords example_var) [] = Inr [(''time'', VInt 1000), (''level'', VInt 2)]"
  "coord_loop True (dpath_of example_dataset) ''t2m'' (zip (map fst [(''time'', 2::nat)]) [1])
     (coords example_var) [] = Inr [(''time'', VInt 2000), (''level'', VInt 2)]"
  "coord_loop True (dpath_of example_dataset) ''t2m'' (zip (map fst [(''time'', 2::nat)]) [5])
     (coords example_var) [] = Inl (DynamicZarrStoreError (Some ''/t2m/instant/heightAboveGround'') ''t2m'' ''time'' [5])"
  by code_simp+


lemma example_make_record:
  "make_record ''t2m'' (merged_attributes example_dataset) [(''time'', VInt 1000), (''level'', VInt 2)]
     [(''uri'', VStr ''s3://bucket/f.grib2''), (''offset'', VInt 0), (''length'', VInt 100),
      (''inline_value'', VNone)] = Inr (example_records ! 0)"
  "make_record ''t2m'' (merged_attributes example_dataset) [(''time'', VInt 2000), (''level'', VInt 2)]
     [(''inline_value'', VStr ''base64:AAAA''), (''offset'', VInt (- 1)), (''length'', VInt (- 1))]
     = Inr (example_records ! 1)"
  by code_simp+

lemma example_store_entries:
  "example_store ''t2m/instant/heightAboveGround/t2m/0.0.0''
     = Some (VList [VStr ''s3://bucket/f.grib2'', VInt 0, VInt 100])"
  "example_store ''t2m/instant/heightAboveGround/t2m/1.0.0'' = Some (VStr ''base64:AAAA'')"
  "sparse_store ''t2m/instant/heightAboveGround/t2m/1.0.0'' = None"
  "whole_file_store ''t2m/instant/heightAboveGround/t2m/0.0.0'' = Some (VList [VStr ''s3://bucket/f.grib2''])"
  by (simp_all add: example_store_def sparse_store_def whole_file_store_def)


text \<open>
  C6. For a data variable whose \<open>.zarray\<close> entry is in the manifest and decodes, the
  dimensions are taken in order with their sizes and chunk sizes. If some dimension has a
  chunk size that is neither 1 nor the size of the dimension, the variable raises the
  ValueError naming the first such dimension: the call fails, and it fails with that
  error when the variables before this one were indexed without error. Otherwise the
  index dimensions are the dimensions of chunk size 1, with their sizes; a dimension
  whose chunk size is its size (and not 1) is left out of them, without error.
\<close>

theorem partial_chunk_raises:
  assumes "(dname, dvar) \<in> set (data_vars dset)"
    and "ref_store (build_path [dpath_of dset, Some dname] (Some ''.zarray'')) = Some z"
    and "zarray_chunks z = Inr dchunk"
  shows "case find partial_chunk (dim_triples dvar dchunk) of
           Some (n, s, c) \<Rightarrow>
             index_dims_of dvar dchunk = Inl (ValueErrorChunkDim n)
             \<and> (\<exists>e. extract_dataset_chunk_index zarray_chunks dset ref_store grib = Inl e)
             \<and> (\<forall>vs rest res.
                   data_vars dset = vs @ (dname, dvar) # rest
                   \<and> vars_loop zarray_chunks grib ref_store (dpath_of dset) (merged_attributes dset) vs []
                       = Inr res
                   \<longrightarrow> extract_dataset_chunk_index zarray_chunks dset ref_store grib
                       = Inl (ValueErrorChunkDim n))
         | None \<Rightarrow>
             index_dims_of dvar dchunk
               = Inr (dict_update []
                       (map (\<lambda>(n, s, c). (n, s)) (filter unit_chunk (dim_triples dvar dchunk))))"
proof (cases "find partial_chunk (dim_triples dvar dchunk)")
  case None
  then show ?thesis by (simp add: index_dims_of_find)
next
  case (Some t)
  obtain n s c where t: "t = (n, s, c)" by (cases t)
  have i: "index_dims_of dvar dchunk = Inl (ValueErrorChunkDim n)"
    by (simp add: index_dims_of_find Some t)
  have v: "var_records zarray_chunks grib ref_store (dpath_of dset) (merged_attributes dset)
             (dname, dvar) res = Inl (ValueErrorChunkDim n)" for res
    by (simp add: var_records_def assms(2,3) i)
  have at: "extract_dataset_chunk_index zarray_chunks dset ref_store grib = Inl (ValueErrorChunkDim n)"
    if "data_vars dset = vs @ (dname, dvar) # rest"
      and "vars_loop zarray_chunks grib ref_store (dpath_of dset) (merged_attributes dset) vs [] = Inr res"
    for vs rest res
    using that by (simp add: extract_dataset_chunk_index_def vars_loop_append v)
  from assms(1) obtain vs rest where sp: "data_vars dset = vs @ (dname, dvar) # rest"
    by (auto dest: split_list)
  have ex: "\<exists>e. extract_dataset_chunk_index zarray_chunks dset ref_store grib = Inl e"
    by (cases "vars_loop zarray_chunks grib ref_store (dpath_of dset) (merged_attributes dset) vs []")
       (simp_all add: extract_dataset_chunk_index_def sp vars_loop_append v)
  from i ex at show ?thesis by (simp add: Some t)
qed


theorem partial_chunk_raises_witness:
  "find partial_chunk (dim_triples example_var [1, 2, 4]) = Some (''y'', 3, 2)
   \<and> extract_dataset_chunk_index (\<lambda>z. Inr [1, 2, 4]) example_dataset example_store True
       = Inl (ValueErrorChunkDim ''y'')
   \<and> find partial_chunk (dim_triples example_var [1, 3, 4]) = None
   \<and> index_dims_of example_var [1, 3, 4] = Inr [(''time'', 2)]"
proof -
  have m: "(''t2m'', example_var) \<in> set (data_vars example_dataset)"
    and d: "data_vars example_dataset = [] @ (''t2m'', example_var) # []"
    by (simp_all add: example_dataset_def)
  have s: "example_store (build_path [dpath_of example_dataset, Some ''t2m''] (Some ''.zarray''))
             = Some (VStr ''zarray'')"
    unfolding example_zarray_key by (simp add: example_store_def)
  have f: "find partial_chunk (dim_triples example_var [1, 2, 4]) = Some (''y'', 3, 2)"
    by (simp add: dim_triples_def example_var_def partial_chunk_def)
  have g: "find partial_chunk (dim_triples example_var [1, 3, 4]) = None"
    by (simp add: dim_triples_def example_var_def partial_chunk_def)
  have u: "filter unit_chunk (dim_triples example_var [1, 3, 4]) = [(''time'', 2, 1)]"
    by (simp add: dim_triples_def example_var_def unit_chunk_def)
  from partial_chunk_raises [of "''t2m''" example_var example_dataset example_store "VStr ''zarray''"
      "\<lambda>z. Inr [1, 2, 4]" "[1, 2, 4]" True, OF m s refl, unfolded f, simplified] d
  have 1: "extract_dataset_chunk_index (\<lambda>z. Inr [1, 2, 4]) example_dataset example_store True
       = Inl (ValueErrorChunkDim ''y'')"
    by (metis vars_loop.simps(1))
  from partial_chunk_raises [of "''t2m''" example_var example_dataset example_store "VStr ''zarray''"
      "\<lambda>z. Inr [1, 3, 4]" "[1, 3, 4]" True, OF m s refl, unfolded g u, simplified]
  have 2: "index_dims_of example_var [1, 3, 4] = Inr [(''time'', 2)]" .
  from f 1 g 2 show ?thesis by simp
qed

text \<open>
  The loops with the log return what the loops of the function return, and never drop a
  warning. A chunk of a variable that the loops pass gives its record to the result of
  the call, its warning to the log, and its exception to the call.
\<close>

lemma chunks_loop_logged_snd:
  "snd (chunks_loop_logged grib ref_store dpath attributes dname dvar index_dims idxs result log)
     = chunks_loop grib ref_store dpath attributes dname dvar index_dims idxs result"
  by (induction idxs arbitrary: result log) (simp_all split: sum.splits option.splits)

lemma var_records_logged_snd:
  "snd (var_records_logged zc grib ref_store dpath attributes dv result log)
     = var_records zc grib ref_store dpath attributes dv result"
  by (simp add: var_records_logged_def var_records_def chunks_loop_logged_snd
      split: prod.splits option.splits sum.splits)

lemma vars_loop_logged_snd:
  "snd (vars_loop_logged zc grib ref_store dpath attributes dvs result log)
     = vars_loop zc grib ref_store dpath attributes dvs result"
proof (induction dvs arbitrary: result log)
  case Nil
  show ?case by simp
next
  case (Cons dv dvs)
  obtain l r where v: "var_records_logged zc grib ref_store dpath attributes dv result log = (l, r)"
    by (cases "var_records_logged zc grib ref_store dpath attributes dv result log")
  have r: "var_records zc grib ref_store dpath attributes dv result = r"
    using var_records_logged_snd [of zc grib ref_store dpath attributes dv result log] v by simp
  show ?case
    by (cases r) (simp_all add: v r Cons.IH)
qed

lemma extract_logged_snd:
  "snd (extract_dataset_chunk_index_logged zc dset ref_store grib)
     = extract_dataset_chunk_index zc dset ref_store grib"
  by (simp add: extract_dataset_chunk_index_logged_def extract_dataset_chunk_index_def
      vars_loop_logged_snd)

lemma chunks_loop_logged_log:
  "set log \<subseteq> set (fst (chunks_loop_logged grib ref_store dpath attributes dname dvar index_dims idxs result log))"
proof (induction idxs arbitrary: result log)
  case Nil
  show ?case by simp
next
  case (Cons i idxs)
  show ?case
  proof (cases "chunk_record grib ref_store dpath attributes dname dvar index_dims i")
    case (Inl e)
    then show ?thesis by simp
  next
    case (Inr opt)
    show ?thesis
    proof (cases opt)
      case None
      with Inr Cons.IH [where result = result and log = "log @ [ChunkNotFound (chunk_key_of dpath dname dvar i (length (zip (map fst index_dims) i)))]"]
      show ?thesis by simp
    next
      case (Some r)
      with Inr Cons.IH [where result = "result @ [r]" and log = log] show ?thesis by simp
    qed
  qed
qed

lemma var_records_logged_log:
  "set log \<subseteq> set (fst (var_records_logged zc grib ref_store dpath attributes dv result log))"
  by (auto simp: var_records_logged_def split: prod.splits option.splits sum.splits
      dest: subsetD [OF chunks_loop_logged_log])

lemma vars_loop_logged_log:
  "set log \<subseteq> set (fst (vars_loop_logged zc grib ref_store dpath attributes dvs result log))"
proof (induction dvs arbitrary: result log)
  case Nil
  show ?case by simp
next
  case (Cons dv dvs)
  obtain l r where v: "var_records_logged zc grib ref_store dpath attributes dv result log = (l, r)"
    by (cases "var_records_logged zc grib ref_store dpath attributes dv result log")
  have l: "set log \<subseteq> set l"
    using var_records_logged_log [of log zc grib ref_store dpath attributes dv result] v by simp
  show ?case
  proof (cases r)
    case (Inl e)
    with v l show ?thesis by simp
  next
    case (Inr res)
    with v l Cons.IH [where result = res and log = l] show ?thesis by auto
  qed
qed

lemma chunks_loop_logged_not_found:
  assumes "chunk_record grib ref_store dpath attributes dname dvar index_dims i = Inr None"
    and "i \<in> set idxs"
    and "chunks_loop grib ref_store dpath attributes dname dvar index_dims idxs result = Inr rs"
  shows "ChunkNotFound (chunk_key_of dpath dname dvar i (length (zip (map fst index_dims) i)))
           \<in> set (fst (chunks_loop_logged grib ref_store dpath attributes dname dvar index_dims idxs result log))"
  using assms(2,3)
proof (induction idxs arbitrary: result log)
  case Nil
  then show ?case by simp
next
  case (Cons j idxs)
  show ?case
  proof (cases "chunk_record grib ref_store dpath attributes dname dvar index_dims j")
    case (Inl e)
    with Cons.prems show ?thesis by simp
  next
    case (Inr opt)
    show ?thesis
    proof (cases "j = i")
      case True
      with assms(1) have o: "chunk_record grib ref_store dpath attributes dname dvar index_dims j = Inr None"
        by simp
      let ?l = "log @ [ChunkNotFound (chunk_key_of dpath dname dvar i (length (zip (map fst index_dims) i)))]"
      have "set ?l \<subseteq> set (fst (chunks_loop_logged grib ref_store dpath attributes dname dvar index_dims idxs result ?l))"
        by (rule chunks_loop_logged_log)
      then show ?thesis using o True by auto
    next
      case False
      with Cons.prems have m: "i \<in> set idxs" by simp
      show ?thesis
      proof (cases opt)
        case None
        with Inr Cons.prems Cons.IH [OF m] show ?thesis by simp
      next
        case (Some r)
        with Inr Cons.prems Cons.IH [OF m] show ?thesis by simp
      qed
    qed
  qed
qed

lemma chunks_loop_mono:
  "chunks_loop grib ref_store dpath attributes dname dvar index_dims idxs result = Inr rs \<Longrightarrow>
   set result \<subseteq> set rs"
proof (induction idxs arbitrary: result)
  case Nil
  then show ?case by simp
next
  case (Cons i idxs)
  show ?case
  proof (cases "chunk_record grib ref_store dpath attributes dname dvar index_dims i")
    case (Inl e)
    with Cons.prems show ?thesis by simp
  next
    case (Inr opt)
    show ?thesis
    proof (cases opt)
      case None
      with Inr Cons show ?thesis by simp
    next
      case (Some r)
      with Inr Cons.prems Cons.IH [of "result @ [r]"] show ?thesis by auto
    qed
  qed
qed

lemma chunks_loop_member:
  assumes "i \<in> set idxs"
    and "chunks_loop grib ref_store dpath attributes dname dvar index_dims idxs result = Inr rs"
  shows "\<exists>opt. chunk_record grib ref_store dpath attributes dname dvar index_dims i = Inr opt
           \<and> (\<forall>r. opt = Some r \<longrightarrow> r \<in> set rs)"
  using assms
proof (induction idxs arbitrary: result)
  case Nil
  then show ?case by simp
next
  case (Cons j idxs)
  show ?case
  proof (cases "chunk_record grib ref_store dpath attributes dname dvar index_dims j")
    case (Inl e)
    with Cons.prems show ?thesis by simp
  next
    case (Inr opt)
    define result' where "result' = (case opt of None \<Rightarrow> result | Some r \<Rightarrow> result @ [r])"
    have l: "chunks_loop grib ref_store dpath attributes dname dvar index_dims idxs result' = Inr rs"
      using Cons.prems(2) Inr by (cases opt) (simp_all add: result'_def)
    show ?thesis
    proof (cases "j = i")
      case True
      have "set result' \<subseteq> set rs" using chunks_loop_mono [OF l] .
      then have "\<forall>r. opt = Some r \<longrightarrow> r \<in> set rs" by (auto simp: result'_def)
      with Inr True show ?thesis by simp
    next
      case False
      with Cons.prems have "i \<in> set idxs" by simp
      from Cons.IH [OF this l] show ?thesis .
    qed
  qed
qed

lemma chunks_loop_fails:
  assumes "chunk_record grib ref_store dpath attributes dname dvar index_dims i = Inl e"
    and "i \<in> set idxs"
  shows "\<exists>e'. chunks_loop grib ref_store dpath attributes dname dvar index_dims idxs result = Inl e'"
proof (cases "chunks_loop grib ref_store dpath attributes dname dvar index_dims idxs result")
  case (Inl e')
  then show ?thesis by simp
next
  case (Inr rs)
  from chunks_loop_member [OF assms(2) Inr] assms(1) show ?thesis by simp
qed

lemma chunks_loop_append:
  "chunks_loop grib ref_store dpath attributes dname dvar index_dims (pre @ post) result =
     (case chunks_loop grib ref_store dpath attributes dname dvar index_dims pre result of
        Inl e \<Rightarrow> Inl e
      | Inr res1 \<Rightarrow> chunks_loop grib ref_store dpath attributes dname dvar index_dims post res1)"
  by (induction pre arbitrary: result) (simp_all split: sum.splits option.splits)

lemma var_records_mono:
  "var_records zc grib ref_store dpath attributes dv result = Inr rs \<Longrightarrow> set result \<subseteq> set rs"
  unfolding var_records_def
  by (auto split: prod.splits option.splits sum.splits dest: chunks_loop_mono)

lemma vars_loop_mono:
  "vars_loop zc grib ref_store dpath attributes dvs result = Inr rs \<Longrightarrow> set result \<subseteq> set rs"
proof (induction dvs arbitrary: result)
  case Nil
  then show ?case by simp
next
  case (Cons dv dvs)
  then obtain res' where v: "var_records zc grib ref_store dpath attributes dv result = Inr res'"
    and l: "vars_loop zc grib ref_store dpath attributes dvs res' = Inr rs"
    by (auto split: sum.splits)
  from var_records_mono [OF v] Cons.IH [OF l] show ?case by blast
qed

lemma vars_loop_logged_append:
  "vars_loop_logged zc grib ref_store dpath attributes (vs @ ws) result log =
     (case vars_loop_logged zc grib ref_store dpath attributes vs result log of
        (l, Inl e) \<Rightarrow> (l, Inl e)
      | (l, Inr r) \<Rightarrow> vars_loop_logged zc grib ref_store dpath attributes ws r l)"
  by (induction vs arbitrary: result log) (simp_all split: prod.splits sum.splits)

lemma chunk_record_eq:
  assumes "coord_loop grib dpath dname (zip (map fst index_dims) idx') (coords dvar) [] = Inr coord_vals"
    and "key = chunk_key_of dpath dname dvar idx' (length (zip (map fst index_dims) idx'))"
  shows "chunk_record grib ref_store dpath attributes dname dvar index_dims idx' =
     (case chunk_data_of key (ref_store key) of
        Inl e \<Rightarrow> Inl e
      | Inr None \<Rightarrow> Inr None
      | Inr (Some chunk_data) \<Rightarrow>
          map_sum id Some (make_record dname attributes coord_vals chunk_data))"
  by (simp add: chunk_record_def Let_def assms)

lemma chunk_record_coord_error:
  "coord_loop grib dpath dname (zip (map fst index_dims) idx') (coords dvar) [] = Inl e \<Longrightarrow>
   chunk_record grib ref_store dpath attributes dname dvar index_dims idx' = Inl e"
  by (simp add: chunk_record_def Let_def)

lemma var_records_chunks:
  assumes "ref_store (build_path [dpath, Some dname] (Some ''.zarray'')) = Some z"
    and "zc z = Inr dchunk" and "index_dims_of dvar dchunk = Inr index_dims"
  shows "var_records zc grib ref_store dpath attributes (dname, dvar) result
           = chunks_loop grib ref_store dpath attributes dname dvar index_dims
               (product_ranges (map snd index_dims)) result"
    and "var_records_logged zc grib ref_store dpath attributes (dname, dvar) result log
           = chunks_loop_logged grib ref_store dpath attributes dname dvar index_dims
               (product_ranges (map snd index_dims)) result log"
  by (simp_all add: var_records_def var_records_logged_def assms)

lemma extract_returned_chunk:
  assumes dv: "(dname, dvar) \<in> set (data_vars dset)"
    and z: "ref_store (build_path [dpath_of dset, Some dname] (Some ''.zarray'')) = Some z"
    and c: "zc z = Inr dchunk" and i: "index_dims_of dvar dchunk = Inr index_dims"
    and m: "idx' \<in> set (product_ranges (map snd index_dims))"
    and r: "extract_dataset_chunk_index zc dset ref_store grib = Inr rs"
  shows "\<exists>opt. chunk_record grib ref_store (dpath_of dset) (merged_attributes dset) dname dvar
                  index_dims idx' = Inr opt
           \<and> (\<forall>r. opt = Some r \<longrightarrow> r \<in> set rs)
           \<and> (opt = None \<longrightarrow>
                ChunkNotFound (chunk_key_of (dpath_of dset) dname dvar idx'
                                 (length (zip (map fst index_dims) idx')))
                  \<in> set (fst (extract_dataset_chunk_index_logged zc dset ref_store grib)))"
proof -
  let ?dp = "dpath_of dset" and ?at = "merged_attributes dset"
  from dv obtain vs rest where sp: "data_vars dset = vs @ (dname, dvar) # rest"
    by (auto dest: split_list)
  from r obtain res res' where
    v1: "vars_loop zc grib ref_store ?dp ?at vs [] = Inr res"
    and v2: "var_records zc grib ref_store ?dp ?at (dname, dvar) res = Inr res'"
    and v3: "vars_loop zc grib ref_store ?dp ?at rest res' = Inr rs"
    by (auto simp: extract_dataset_chunk_index_def sp vars_loop_append split: sum.splits)
  have cl: "chunks_loop grib ref_store ?dp ?at dname dvar index_dims
              (product_ranges (map snd index_dims)) res = Inr res'"
    using v2 var_records_chunks(1) [where zc = zc and z = z and ref_store = ref_store and dpath = "dpath_of dset" and dname = dname, OF z c i] by simp
  from chunks_loop_member [OF m cl] obtain opt where
    o: "chunk_record grib ref_store ?dp ?at dname dvar index_dims idx' = Inr opt"
    and o2: "\<forall>r. opt = Some r \<longrightarrow> r \<in> set res'"
    by blast
  have mono: "set res' \<subseteq> set rs" using vars_loop_mono [OF v3] .
  have lg: "ChunkNotFound (chunk_key_of ?dp dname dvar idx' (length (zip (map fst index_dims) idx')))
              \<in> set (fst (extract_dataset_chunk_index_logged zc dset ref_store grib))"
    if n: "opt = None"
  proof -
    obtain l0 where l0: "vars_loop_logged zc grib ref_store ?dp ?at vs [] [] = (l0, Inr res)"
      using vars_loop_logged_snd [of zc grib ref_store ?dp ?at vs "[]" "[]"] v1
      by (cases "vars_loop_logged zc grib ref_store ?dp ?at vs [] []") simp
    obtain l1 where l1: "chunks_loop_logged grib ref_store ?dp ?at dname dvar index_dims
              (product_ranges (map snd index_dims)) res l0 = (l1, Inr res')"
      using chunks_loop_logged_snd [of grib ref_store ?dp ?at dname dvar index_dims
              "product_ranges (map snd index_dims)" res l0] cl
      by (cases "chunks_loop_logged grib ref_store ?dp ?at dname dvar index_dims
              (product_ranges (map snd index_dims)) res l0") simp
    have "ChunkNotFound (chunk_key_of ?dp dname dvar idx' (length (zip (map fst index_dims) idx')))
            \<in> set l1"
      using chunks_loop_logged_not_found [OF o [unfolded n] m cl, of l0] l1 by simp
    moreover have "set l1 \<subseteq> set (fst (vars_loop_logged zc grib ref_store ?dp ?at rest res' l1))"
      by (rule vars_loop_logged_log)
    moreover have "extract_dataset_chunk_index_logged zc dset ref_store grib
        = vars_loop_logged zc grib ref_store ?dp ?at rest res' l1"
      by (simp add: extract_dataset_chunk_index_logged_def sp vars_loop_logged_append l0
          var_records_chunks(2) [where zc = zc and z = z and ref_store = ref_store and dpath = "dpath_of dset" and dname = dname, OF z c i] l1)
    ultimately show ?thesis by auto
  qed
  from o o2 mono lg show ?thesis by blast
qed

lemma extract_fails_chunk:
  assumes dv: "(dname, dvar) \<in> set (data_vars dset)"
    and z: "ref_store (build_path [dpath_of dset, Some dname] (Some ''.zarray'')) = Some z"
    and c: "zc z = Inr dchunk" and i: "index_dims_of dvar dchunk = Inr index_dims"
    and m: "idx' \<in> set (product_ranges (map snd index_dims))"
    and f: "chunk_record grib ref_store (dpath_of dset) (merged_attributes dset) dname dvar
              index_dims idx' = Inl e"
  shows "\<exists>e'. extract_dataset_chunk_index zc dset ref_store grib = Inl e'"
proof (cases "extract_dataset_chunk_index zc dset ref_store grib")
  case (Inl e')
  then show ?thesis by simp
next
  case (Inr rs)
  from extract_returned_chunk [where zc = zc and z = z and ref_store = ref_store and dset = dset and dname = dname, OF dv z c i m Inr] f show ?thesis by simp
qed

lemma extract_reached:
  assumes z: "ref_store (build_path [dpath_of dset, Some dname] (Some ''.zarray'')) = Some z"
    and c: "zc z = Inr dchunk" and i: "index_dims_of dvar dchunk = Inr index_dims"
    and r: "reached zc grib ref_store dset dname dvar index_dims idx' vs rest pre post res1 coord_vals"
  shows "extract_dataset_chunk_index zc dset ref_store grib =
     (case chunk_record grib ref_store (dpath_of dset) (merged_attributes dset) dname dvar
             index_dims idx' of
        Inl e \<Rightarrow> Inl e
      | Inr None \<Rightarrow> rest_of_call zc grib ref_store dset dname dvar index_dims post rest res1
      | Inr (Some r) \<Rightarrow>
          rest_of_call zc grib ref_store dset dname dvar index_dims post rest (res1 @ [r]))"
proof -
  from r obtain res where sp: "data_vars dset = vs @ (dname, dvar) # rest"
    and pr: "product_ranges (map snd index_dims) = pre @ idx' # post"
    and v1: "vars_loop zc grib ref_store (dpath_of dset) (merged_attributes dset) vs [] = Inr res"
    and c1: "chunks_loop grib ref_store (dpath_of dset) (merged_attributes dset) dname dvar
                   index_dims pre res = Inr res1"
    by (auto simp: reached_def split: sum.splits)
  show ?thesis
    by (simp add: extract_dataset_chunk_index_def sp vars_loop_append v1
        var_records_chunks(1) [where zc = zc and z = z and ref_store = ref_store and dpath = "dpath_of dset" and dname = dname, OF z c i] pr chunks_loop_append c1 rest_of_call_def
        split: sum.splits option.splits)
qed

lemma example_index_dims:
  "example_chunks (VStr ''zarray'') = Inr [1, 3, 4]"
  "index_dims_of example_var [1, 3, 4] = Inr [(''time'', 2)]"
  "product_ranges (map snd [(''time'', 2::nat)]) = [[0], [1]]"
  by (simp add: example_chunks_def, code_simp, code_simp)

lemma example_zarray_entries:
  "example_store (build_path [dpath_of example_dataset, Some ''t2m''] (Some ''.zarray''))
     = Some (VStr ''zarray'')"
  "sparse_store (build_path [dpath_of example_dataset, Some ''t2m''] (Some ''.zarray''))
     = Some (VStr ''zarray'')"
  "whole_file_store (build_path [dpath_of example_dataset, Some ''t2m''] (Some ''.zarray''))
     = Some (VStr ''zarray'')"
  unfolding example_zarray_key
  by (simp_all add: example_store_def sparse_store_def whole_file_store_def)

lemma example_sparse_extract:
  "extract_dataset_chunk_index example_chunks example_dataset sparse_store True
     = Inr [example_records ! 0]"
  by code_simp

lemma example_first_chunk_reached:
  "reached example_chunks True whole_file_store example_dataset ''t2m'' example_var [(''time'', 2)]
     [0] [] [] [] [[1]] [] [(''time'', VInt 1000), (''level'', VInt 2)]"
  unfolding reached_def
proof (intro conjI)
  show "data_vars example_dataset = [] @ (''t2m'', example_var) # []"
    by (simp add: example_dataset_def)
  show "product_ranges (map snd [(''time'', 2::nat)]) = [] @ [0] # [[1]]"
    using example_index_dims(3) by simp
  show "case vars_loop example_chunks True whole_file_store (dpath_of example_dataset)
               (merged_attributes example_dataset) [] [] of
          Inl e \<Rightarrow> False
        | Inr res \<Rightarrow>
            chunks_loop True whole_file_store (dpath_of example_dataset)
              (merged_attributes example_dataset) ''t2m'' example_var [(''time'', 2)] [] res = Inr []"
    by simp
  show "coord_loop True (dpath_of example_dataset) ''t2m'' (zip (map fst [(''time'', 2::nat)]) [0])
          (coords example_var) [] = Inr [(''time'', VInt 1000), (''level'', VInt 2)]"
    by (rule example_coord_loop(1))
qed

text \<open>
  C7. Take a chunk of a data variable of the dataset: the variable's \<open>.zarray\<close> entry is
  in the manifest and decodes, its index dimensions are found, and the chunk is one of
  the combinations of their indices. The entry \<open>ref_store.get(chunk_key)\<close> decides what
  \<open>extract_dataset_chunk_index\<close> does with it.
  No entry: whenever the call returns, the warning "Chunk not found" with the key is in
  its log; and a call that reaches the chunk goes on with the records it had, so the
  chunk adds no record and no error.
  A three-element list: whenever the call returns, the returned records hold the record
  of the chunk, with the elements of the list as \<open>uri\<close>, \<open>offset\<close> and \<open>length\<close> and
  \<open>inline_value\<close> None; a call that reaches the chunk goes on with that record appended
  (the keyword dict of the source raises when a keyword is given twice, and then the call
  ends with that exception).
  A text or bytes entry: the same, the record having the entry as \<open>inline_value\<close> and -1
  as \<open>offset\<close> and \<open>length\<close>.
  Any other entry: the call raises, and a call that reaches the chunk raises the
  ValueError that names the key and the value.
\<close>

theorem chunk_entry_outcomes:
  assumes dv: "(dname, dvar) \<in> set (data_vars dset)"
    and z: "ref_store (build_path [dpath_of dset, Some dname] (Some ''.zarray'')) = Some z"
    and c: "zarray_chunks z = Inr dchunk"
    and i: "index_dims_of dvar dchunk = Inr index_dims"
    and m: "idx' \<in> set (product_ranges (map snd index_dims))"
    and k: "key = chunk_key_of (dpath_of dset) dname dvar idx' (length (zip (map fst index_dims) idx'))"
  shows
    "(ref_store key = None \<or> ref_store key = Some VNone \<longrightarrow>
        (\<forall>rs. extract_dataset_chunk_index zarray_chunks dset ref_store grib = Inr rs \<longrightarrow>
           ChunkNotFound key
             \<in> set (fst (extract_dataset_chunk_index_logged zarray_chunks dset ref_store grib)))
        \<and> (\<forall>vs rest pre post res1 coord_vals.
              reached zarray_chunks grib ref_store dset dname dvar index_dims idx' vs rest pre post
                res1 coord_vals \<longrightarrow>
              extract_dataset_chunk_index zarray_chunks dset ref_store grib
                = rest_of_call zarray_chunks grib ref_store dset dname dvar index_dims post rest res1))
     \<and> (\<forall>u off len.
          ref_store key = Some (VList [u, off, len]) \<longrightarrow>
            (\<forall>rs. extract_dataset_chunk_index zarray_chunks dset ref_store grib = Inr rs \<longrightarrow>
               (\<exists>coord_vals r.
                  coord_loop grib (dpath_of dset) dname (zip (map fst index_dims) idx') (coords dvar) []
                    = Inr coord_vals
                  \<and> r = (''varname'', VStr dname) # merged_attributes dset @ coord_vals
                          @ [(''uri'', u), (''offset'', off), (''length'', len), (''inline_value'', VNone)]
                  \<and> r \<in> set rs
                  \<and> map_of r ''uri'' = Some u \<and> map_of r ''offset'' = Some off
                  \<and> map_of r ''length'' = Some len \<and> map_of r ''inline_value'' = Some VNone))
            \<and> (\<forall>vs rest pre post res1 coord_vals.
                  reached zarray_chunks grib ref_store dset dname dvar index_dims idx' vs rest pre post
                    res1 coord_vals \<longrightarrow>
                  extract_dataset_chunk_index zarray_chunks dset ref_store grib
                    = (case make_record dname (merged_attributes dset) coord_vals
                              [(''uri'', u), (''offset'', off), (''length'', len),
                               (''inline_value'', VNone)] of
                         Inl e \<Rightarrow> Inl e
                       | Inr r \<Rightarrow>
                           rest_of_call zarray_chunks grib ref_store dset dname dvar index_dims post
                             rest (res1 @ [r]))))
     \<and> (\<forall>v.
          ref_store key = Some v \<and> is_inline v \<longrightarrow>
            (\<forall>rs. extract_dataset_chunk_index zarray_chunks dset ref_store grib = Inr rs \<longrightarrow>
               (\<exists>coord_vals r.
                  coord_loop grib (dpath_of dset) dname (zip (map fst index_dims) idx') (coords dvar) []
                    = Inr coord_vals
                  \<and> r = (''varname'', VStr dname) # merged_attributes dset @ coord_vals
                          @ [(''inline_value'', v), (''offset'', VInt (- 1)), (''length'', VInt (- 1))]
                  \<and> r \<in> set rs
                  \<and> map_of r ''inline_value'' = Some v \<and> map_of r ''offset'' = Some (VInt (- 1))
                  \<and> map_of r ''length'' = Some (VInt (- 1))))
            \<and> (\<forall>vs rest pre post res1 coord_vals.
                  reached zarray_chunks grib ref_store dset dname dvar index_dims idx' vs rest pre post
                    res1 coord_vals \<longrightarrow>
                  extract_dataset_chunk_index zarray_chunks dset ref_store grib
                    = (case make_record dname (merged_attributes dset) coord_vals
                              [(''inline_value'', v), (''offset'', VInt (- 1)),
                               (''length'', VInt (- 1))] of
                         Inl e \<Rightarrow> Inl e
                       | Inr r \<Rightarrow>
                           rest_of_call zarray_chunks grib ref_store dset dname dvar index_dims post
                             rest (res1 @ [r]))))
     \<and> (\<forall>v.
          ref_store key = Some v \<and> v \<noteq> VNone \<and> \<not> is_inline v
          \<and> (\<forall>u off len. v \<noteq> VList [u, off, len]) \<longrightarrow>
            (\<exists>e. extract_dataset_chunk_index zarray_chunks dset ref_store grib = Inl e)
            \<and> (\<forall>vs rest pre post res1 coord_vals.
                  reached zarray_chunks grib ref_store dset dname dvar index_dims idx' vs rest pre post
                    res1 coord_vals \<longrightarrow>
                  extract_dataset_chunk_index zarray_chunks dset ref_store grib
                    = Inl (ValueErrorBadValue key v)))"
proof -
  let ?dp = "dpath_of dset" and ?at = "merged_attributes dset"
  let ?ex = "extract_dataset_chunk_index zarray_chunks dset ref_store grib"
  let ?cr = "chunk_record grib ref_store ?dp ?at dname dvar index_dims idx'"
  let ?cl = "coord_loop grib ?dp dname (zip (map fst index_dims) idx') (coords dvar) []"
  note ret = extract_returned_chunk [where zc = zarray_chunks and z = z and ref_store = ref_store
      and dset = dset and dname = dname and grib = grib, OF dv z c i m, folded k]
  note rch = extract_reached [where zc = zarray_chunks and z = z and ref_store = ref_store
      and dset = dset and dname = dname and grib = grib and idx' = idx', OF z c i]
  have cr: "?cr = (case chunk_data_of key (ref_store key) of
        Inl e \<Rightarrow> Inl e
      | Inr None \<Rightarrow> Inr None
      | Inr (Some chunk_data) \<Rightarrow> map_sum id Some (make_record dname ?at cv chunk_data))"
    if "?cl = Inr cv" for cv
    using chunk_record_eq [OF that k] .
  have cv_of_reached: "?cl = Inr cv"
    if "reached zarray_chunks grib ref_store dset dname dvar index_dims idx' vs rest pre post res1 cv"
    for vs rest pre post res1 cv
    using that by (simp add: reached_def)
  have cv_of_returned: "\<exists>cv. ?cl = Inr cv" if "?ex = Inr rs" for rs
  proof (cases ?cl)
    case (Inl e)
    from chunk_record_coord_error [OF Inl] ret [OF that] show ?thesis by simp
  next
    case (Inr cv)
    then show ?thesis by blast
  qed
  have absent: "ref_store key = None \<or> ref_store key = Some VNone \<longrightarrow>
        (\<forall>rs. ?ex = Inr rs \<longrightarrow>
           ChunkNotFound key
             \<in> set (fst (extract_dataset_chunk_index_logged zarray_chunks dset ref_store grib)))
        \<and> (\<forall>vs rest pre post res1 coord_vals.
              reached zarray_chunks grib ref_store dset dname dvar index_dims idx' vs rest pre post
                res1 coord_vals \<longrightarrow>
              ?ex = rest_of_call zarray_chunks grib ref_store dset dname dvar index_dims post rest res1)"
  proof (intro impI conjI allI)
    assume a: "ref_store key = None \<or> ref_store key = Some VNone"
    then have cd: "chunk_data_of key (ref_store key) = Inr None"
      by (auto simp: chunk_data_of_def)
    {
      fix rs assume r: "?ex = Inr rs"
      from cv_of_returned [OF r] obtain cv where cv: "?cl = Inr cv" by blast
      have "?cr = Inr None" by (simp add: cr [OF cv] cd)
      with ret [OF r] show "ChunkNotFound key
             \<in> set (fst (extract_dataset_chunk_index_logged zarray_chunks dset ref_store grib))"
        by simp
    }
    {
      fix vs rest pre post res1 coord_vals
      assume r: "reached zarray_chunks grib ref_store dset dname dvar index_dims idx' vs rest pre post
                res1 coord_vals"
      have "?cr = Inr None" by (simp add: cr [OF cv_of_reached [OF r]] cd)
      with rch [OF r]
      show "?ex = rest_of_call zarray_chunks grib ref_store dset dname dvar index_dims post rest res1"
        by simp
    }
  qed
  have located:
    "(\<forall>rs. ?ex = Inr rs \<longrightarrow>
        (\<exists>coord_vals r. ?cl = Inr coord_vals
           \<and> r = (''varname'', VStr dname) # ?at @ coord_vals @ cd
           \<and> r \<in> set rs \<and> (\<forall>f \<in> fst ` set cd. map_of r f = map_of cd f)))
     \<and> (\<forall>vs rest pre post res1 coord_vals.
           reached zarray_chunks grib ref_store dset dname dvar index_dims idx' vs rest pre post
             res1 coord_vals \<longrightarrow>
           ?ex = (case make_record dname ?at coord_vals cd of
                    Inl e \<Rightarrow> Inl e
                  | Inr r \<Rightarrow>
                      rest_of_call zarray_chunks grib ref_store dset dname dvar index_dims post
                        rest (res1 @ [r])))"
    if cd: "chunk_data_of key (ref_store key) = Inr (Some cd)" for cd
  proof (intro impI conjI allI)
    {
      fix rs assume r: "?ex = Inr rs"
      from cv_of_returned [OF r] obtain cv where cv: "?cl = Inr cv" by blast
      have e: "?cr = map_sum id Some (make_record dname ?at cv cd)"
        by (simp add: cr [OF cv] cd)
      from ret [OF r] obtain opt where o: "?cr = Inr opt" and mem: "\<forall>r. opt = Some r \<longrightarrow> r \<in> set rs"
        by blast
      from e o obtain r' where mr: "make_record dname ?at cv cd = Inr r'" and "opt = Some r'"
        by (cases "make_record dname ?at cv cd") auto
      with mem have "r' \<in> set rs" by simp
      moreover have "r' = (''varname'', VStr dname) # ?at @ cv @ cd"
        using make_record_Inr(1) [OF mr] .
      moreover have "\<forall>f \<in> fst ` set cd. map_of r' f = map_of cd f"
        using make_record_chunk_data [OF mr] by blast
      ultimately show "\<exists>coord_vals r. ?cl = Inr coord_vals
           \<and> r = (''varname'', VStr dname) # ?at @ coord_vals @ cd
           \<and> r \<in> set rs \<and> (\<forall>f \<in> fst ` set cd. map_of r f = map_of cd f)"
        using cv by blast
    }
    {
      fix vs rest pre post res1 coord_vals
      assume r: "reached zarray_chunks grib ref_store dset dname dvar index_dims idx' vs rest pre post
                res1 coord_vals"
      have "?cr = map_sum id Some (make_record dname ?at coord_vals cd)"
        by (simp add: cr [OF cv_of_reached [OF r]] cd)
      with rch [OF r]
      show "?ex = (case make_record dname ?at coord_vals cd of
                    Inl e \<Rightarrow> Inl e
                  | Inr r \<Rightarrow>
                      rest_of_call zarray_chunks grib ref_store dset dname dvar index_dims post
                        rest (res1 @ [r]))"
        by (cases "make_record dname ?at coord_vals cd") simp_all
    }
  qed
  have range: "\<forall>u off len.
          ref_store key = Some (VList [u, off, len]) \<longrightarrow>
            (\<forall>rs. ?ex = Inr rs \<longrightarrow>
               (\<exists>coord_vals r. ?cl = Inr coord_vals
                  \<and> r = (''varname'', VStr dname) # ?at @ coord_vals
                          @ [(''uri'', u), (''offset'', off), (''length'', len), (''inline_value'', VNone)]
                  \<and> r \<in> set rs
                  \<and> map_of r ''uri'' = Some u \<and> map_of r ''offset'' = Some off
                  \<and> map_of r ''length'' = Some len \<and> map_of r ''inline_value'' = Some VNone))
            \<and> (\<forall>vs rest pre post res1 coord_vals.
                  reached zarray_chunks grib ref_store dset dname dvar index_dims idx' vs rest pre post
                    res1 coord_vals \<longrightarrow>
                  ?ex = (case make_record dname ?at coord_vals
                              [(''uri'', u), (''offset'', off), (''length'', len),
                               (''inline_value'', VNone)] of
                         Inl e \<Rightarrow> Inl e
                       | Inr r \<Rightarrow>
                           rest_of_call zarray_chunks grib ref_store dset dname dvar index_dims post
                             rest (res1 @ [r])))"
  proof (intro allI impI)
    fix u off len assume s: "ref_store key = Some (VList [u, off, len])"
    have "chunk_data_of key (ref_store key)
            = Inr (Some [(''uri'', u), (''offset'', off), (''length'', len), (''inline_value'', VNone)])"
      by (simp add: s chunk_data_of_cases)
    from located [OF this]
    show "(\<forall>rs. ?ex = Inr rs \<longrightarrow>
               (\<exists>coord_vals r. ?cl = Inr coord_vals
                  \<and> r = (''varname'', VStr dname) # ?at @ coord_vals
                          @ [(''uri'', u), (''offset'', off), (''length'', len), (''inline_value'', VNone)]
                  \<and> r \<in> set rs
                  \<and> map_of r ''uri'' = Some u \<and> map_of r ''offset'' = Some off
                  \<and> map_of r ''length'' = Some len \<and> map_of r ''inline_value'' = Some VNone))
            \<and> (\<forall>vs rest pre post res1 coord_vals.
                  reached zarray_chunks grib ref_store dset dname dvar index_dims idx' vs rest pre post
                    res1 coord_vals \<longrightarrow>
                  ?ex = (case make_record dname ?at coord_vals
                              [(''uri'', u), (''offset'', off), (''length'', len),
                               (''inline_value'', VNone)] of
                         Inl e \<Rightarrow> Inl e
                       | Inr r \<Rightarrow>
                           rest_of_call zarray_chunks grib ref_store dset dname dvar index_dims post
                             rest (res1 @ [r])))"
      by simp
  qed
  have inline: "\<forall>v.
          ref_store key = Some v \<and> is_inline v \<longrightarrow>
            (\<forall>rs. ?ex = Inr rs \<longrightarrow>
               (\<exists>coord_vals r. ?cl = Inr coord_vals
                  \<and> r = (''varname'', VStr dname) # ?at @ coord_vals
                          @ [(''inline_value'', v), (''offset'', VInt (- 1)), (''length'', VInt (- 1))]
                  \<and> r \<in> set rs
                  \<and> map_of r ''inline_value'' = Some v \<and> map_of r ''offset'' = Some (VInt (- 1))
                  \<and> map_of r ''length'' = Some (VInt (- 1))))
            \<and> (\<forall>vs rest pre post res1 coord_vals.
                  reached zarray_chunks grib ref_store dset dname dvar index_dims idx' vs rest pre post
                    res1 coord_vals \<longrightarrow>
                  ?ex = (case make_record dname ?at coord_vals
                              [(''inline_value'', v), (''offset'', VInt (- 1)),
                               (''length'', VInt (- 1))] of
                         Inl e \<Rightarrow> Inl e
                       | Inr r \<Rightarrow>
                           rest_of_call zarray_chunks grib ref_store dset dname dvar index_dims post
                             rest (res1 @ [r])))"
  proof (intro allI impI)
    fix v assume s: "ref_store key = Some v \<and> is_inline v"
    then have "chunk_data_of key (ref_store key)
            = Inr (Some [(''inline_value'', v), (''offset'', VInt (- 1)), (''length'', VInt (- 1))])"
      by (simp add: chunk_data_of_cases)
    from located [OF this]
    show "(\<forall>rs. ?ex = Inr rs \<longrightarrow>
               (\<exists>coord_vals r. ?cl = Inr coord_vals
                  \<and> r = (''varname'', VStr dname) # ?at @ coord_vals
                          @ [(''inline_value'', v), (''offset'', VInt (- 1)), (''length'', VInt (- 1))]
                  \<and> r \<in> set rs
                  \<and> map_of r ''inline_value'' = Some v \<and> map_of r ''offset'' = Some (VInt (- 1))
                  \<and> map_of r ''length'' = Some (VInt (- 1))))
            \<and> (\<forall>vs rest pre post res1 coord_vals.
                  reached zarray_chunks grib ref_store dset dname dvar index_dims idx' vs rest pre post
                    res1 coord_vals \<longrightarrow>
                  ?ex = (case make_record dname ?at coord_vals
                              [(''inline_value'', v), (''offset'', VInt (- 1)),
                               (''length'', VInt (- 1))] of
                         Inl e \<Rightarrow> Inl e
                       | Inr r \<Rightarrow>
                           rest_of_call zarray_chunks grib ref_store dset dname dvar index_dims post
                             rest (res1 @ [r])))"
      by simp
  qed
  have bad: "\<forall>v.
          ref_store key = Some v \<and> v \<noteq> VNone \<and> \<not> is_inline v
          \<and> (\<forall>u off len. v \<noteq> VList [u, off, len]) \<longrightarrow>
            (\<exists>e. ?ex = Inl e)
            \<and> (\<forall>vs rest pre post res1 coord_vals.
                  reached zarray_chunks grib ref_store dset dname dvar index_dims idx' vs rest pre post
                    res1 coord_vals \<longrightarrow>
                  ?ex = Inl (ValueErrorBadValue key v))"
  proof (intro allI impI conjI)
    fix v assume s: "ref_store key = Some v \<and> v \<noteq> VNone \<and> \<not> is_inline v
          \<and> (\<forall>u off len. v \<noteq> VList [u, off, len])"
    then have cd: "chunk_data_of key (ref_store key) = Inl (ValueErrorBadValue key v)"
      by (simp add: chunk_data_of_cases(5))
    have "\<exists>e. ?cr = Inl e"
    proof (cases ?cl)
      case (Inl e)
      from chunk_record_coord_error [OF Inl] show ?thesis by blast
    next
      case (Inr cv)
      show ?thesis by (simp add: cr [OF Inr] cd)
    qed
    then obtain e where "?cr = Inl e" by blast
    from extract_fails_chunk [where zc = zarray_chunks and z = z and ref_store = ref_store
        and dset = dset and dname = dname and grib = grib, OF dv z c i m this]
    show "\<exists>e. ?ex = Inl e" .
    {
      fix vs rest pre post res1 coord_vals
      assume r: "reached zarray_chunks grib ref_store dset dname dvar index_dims idx' vs rest pre post
                res1 coord_vals"
      have "?cr = Inl (ValueErrorBadValue key v)"
        by (simp add: cr [OF cv_of_reached [OF r]] cd)
      with rch [OF r] show "?ex = Inl (ValueErrorBadValue key v)" by simp
    }
  qed
  show ?thesis
    by (rule conjI [OF absent conjI [OF range conjI [OF inline bad]]])
qed

theorem chunk_entry_outcomes_witness:
  "extract_dataset_chunk_index example_chunks example_dataset example_store True = Inr example_records
   \<and> (\<exists>r \<in> set example_records.
         map_of r ''uri'' = Some (VStr ''s3://bucket/f.grib2'') \<and> map_of r ''offset'' = Some (VInt 0)
         \<and> map_of r ''length'' = Some (VInt 100) \<and> map_of r ''inline_value'' = Some VNone)
   \<and> (\<exists>r \<in> set example_records.
         map_of r ''inline_value'' = Some (VStr ''base64:AAAA'')
         \<and> map_of r ''offset'' = Some (VInt (- 1)) \<and> map_of r ''length'' = Some (VInt (- 1)))
   \<and> extract_dataset_chunk_index example_chunks example_dataset sparse_store True
       = Inr [example_records ! 0]
   \<and> ChunkNotFound ''t2m/instant/heightAboveGround/t2m/1.0.0''
       \<in> set (fst (extract_dataset_chunk_index_logged example_chunks example_dataset sparse_store True))
   \<and> extract_dataset_chunk_index example_chunks example_dataset whole_file_store True
       = Inl (ValueErrorBadValue ''t2m/instant/heightAboveGround/t2m/0.0.0''
                (VList [VStr ''s3://bucket/f.grib2'']))"
proof -
  have dv: "(''t2m'', example_var) \<in> set (data_vars example_dataset)"
    by (simp add: example_dataset_def)
  have m: "[0] \<in> set (product_ranges (map snd [(''time'', 2::nat)]))"
    "[1] \<in> set (product_ranges (map snd [(''time'', 2::nat)]))"
    by (simp_all add: example_index_dims)
  note t0 = chunk_entry_outcomes [where zarray_chunks = example_chunks and dset = example_dataset
      and dname = "''t2m''" and z = "VStr ''zarray''" and grib = True and idx' = "[0]"
      and dvar = example_var and dchunk = "[1, 3, 4]" and index_dims = "[(''time'', 2)]"
      and key = "''t2m/instant/heightAboveGround/t2m/0.0.0''"]
  note t1 = chunk_entry_outcomes [where zarray_chunks = example_chunks and dset = example_dataset
      and dname = "''t2m''" and z = "VStr ''zarray''" and grib = True and idx' = "[1]"
      and dvar = example_var and dchunk = "[1, 3, 4]" and index_dims = "[(''time'', 2)]"
      and key = "''t2m/instant/heightAboveGround/t2m/1.0.0''"]
  note e0 = t0 [where ref_store = example_store, OF dv example_zarray_entries(1)
      example_index_dims(1,2) m(1) example_chunk_keys(1) [symmetric]]
  note e1 = t1 [where ref_store = example_store, OF dv example_zarray_entries(1)
      example_index_dims(1,2) m(2) example_chunk_keys(2) [symmetric]]
  note s1 = t1 [where ref_store = sparse_store, OF dv example_zarray_entries(2)
      example_index_dims(1,2) m(2) example_chunk_keys(2) [symmetric]]
  note w0 = t0 [where ref_store = whole_file_store, OF dv example_zarray_entries(3)
      example_index_dims(1,2) m(1) example_chunk_keys(1) [symmetric]]
  note range0 = e0 [THEN conjunct2, THEN conjunct1, THEN spec, THEN spec, THEN spec, THEN mp,
      OF example_store_entries(1), THEN conjunct1, THEN spec, THEN mp, OF example_extract]
  have i: "example_store ''t2m/instant/heightAboveGround/t2m/1.0.0'' = Some (VStr ''base64:AAAA'')
           \<and> is_inline (VStr ''base64:AAAA'')"
    by (simp add: is_inline_def example_store_entries(2))
  note inline1 = e1 [THEN conjunct2, THEN conjunct2, THEN conjunct1, THEN spec, THEN mp, OF i,
      THEN conjunct1, THEN spec, THEN mp, OF example_extract]
  note absent1 = s1 [THEN conjunct1, THEN mp, OF disjI1 [OF example_store_entries(3)],
      THEN conjunct1, THEN spec, THEN mp, OF example_sparse_extract]
  have n: "whole_file_store ''t2m/instant/heightAboveGround/t2m/0.0.0''
             = Some (VList [VStr ''s3://bucket/f.grib2''])
           \<and> VList [VStr ''s3://bucket/f.grib2''] \<noteq> VNone
           \<and> \<not> is_inline (VList [VStr ''s3://bucket/f.grib2''])
           \<and> (\<forall>u off len. VList [VStr ''s3://bucket/f.grib2''] \<noteq> VList [u, off, len])"
    by (simp add: is_inline_def example_store_entries(4))
  note bad0 = w0 [THEN conjunct2, THEN conjunct2, THEN conjunct2, THEN spec, THEN mp, OF n,
      THEN conjunct2, THEN spec, THEN spec, THEN spec, THEN spec, THEN spec, THEN spec, THEN mp,
      OF example_first_chunk_reached]
  from range0 obtain r0 where a0: "r0 \<in> set example_records"
    "map_of r0 ''uri'' = Some (VStr ''s3://bucket/f.grib2'')" "map_of r0 ''offset'' = Some (VInt 0)"
    "map_of r0 ''length'' = Some (VInt 100)" "map_of r0 ''inline_value'' = Some VNone"
    by (elim exE conjE)
  from inline1 obtain r1 where a1: "r1 \<in> set example_records"
    "map_of r1 ''inline_value'' = Some (VStr ''base64:AAAA'')"
    "map_of r1 ''offset'' = Some (VInt (- 1))" "map_of r1 ''length'' = Some (VInt (- 1))"
    by (elim exE conjE)
  have a: "\<exists>r \<in> set example_records.
         map_of r ''uri'' = Some (VStr ''s3://bucket/f.grib2'') \<and> map_of r ''offset'' = Some (VInt 0)
         \<and> map_of r ''length'' = Some (VInt 100) \<and> map_of r ''inline_value'' = Some VNone"
    by (rule bexI [OF _ a0(1)]) (intro conjI a0)
  have b: "\<exists>r \<in> set example_records.
         map_of r ''inline_value'' = Some (VStr ''base64:AAAA'')
         \<and> map_of r ''offset'' = Some (VInt (- 1)) \<and> map_of r ''length'' = Some (VInt (- 1))"
    by (rule bexI [OF _ a1(1)]) (intro conjI a1)
  from example_extract a b example_sparse_extract absent1 bad0 show ?thesis by (intro conjI)
qed

section \<open>build_idx_grib_mapping: the validation\<close>

text \<open>
  What the validation does in general. A mismatch of the offsets (or, the offsets all
  matching, of the lengths) always raises: the ValueError with the numbers of matched
  and mismatched rows when at least one row matches, and the KeyError of \<open>vcs[True]\<close>
  when none does. With no mismatch and the five key columns in the frame, duplicates of
  the descriptor or of the composite key only add warnings.
\<close>

lemma count_list_bool:
  "count_list (map P xs) True = length (filter P xs)"
  "count_list (map P xs) False = length (filter (\<lambda>x. \<not> P x) xs)"
  by (induction xs) auto

lemma mismatch_error_cases:
  assumes "\<not> list_all P rows"
  shows "mismatch_error basename (map P rows) =
           (if list_ex P rows
            then ValueErrorMismatch basename (length (filter P rows))
                   (length (filter (\<lambda>j. \<not> P j) rows))
            else KeyErrorBool True)"
proof -
  from assms have f: "False \<in> set (map P rows)"
    by (auto simp: list_all_iff)
  have t: "True \<in> set (map P rows) \<longleftrightarrow> list_ex P rows"
    by (auto simp: list_ex_iff)
  show ?thesis
    using f t by (simp add: mismatch_error_def value_counts_def Let_def count_list_bool)
qed

lemma validate_mapping_offset_mismatch:
  assumes "\<not> list_all match_offset rows"
  shows "validate_mapping basename cols rows =
           Inl (if list_ex match_offset rows
                then ValueErrorMismatch basename (length (filter match_offset rows))
                       (length (filter (\<lambda>j. \<not> match_offset j) rows))
                else KeyErrorBool True)"
  using assms mismatch_error_cases [OF assms, of basename]
  by (simp add: validate_mapping_def Let_def list_all_iff)

lemma validate_mapping_length_mismatch:
  assumes "list_all match_offset rows" and "\<not> list_all match_length rows"
  shows "validate_mapping basename cols rows =
           Inl (if list_ex match_length rows
                then ValueErrorMismatch basename (length (filter match_length rows))
                       (length (filter (\<lambda>j. \<not> match_length j) rows))
                else KeyErrorBool True)"
  using assms mismatch_error_cases [OF assms(2), of basename]
  by (simp add: validate_mapping_def Let_def list_all_iff)

lemma validate_mapping_duplicates_warn:
  assumes "list_all match_offset rows" and "list_all match_length rows"
    and "set key_columns \<subseteq> set cols"
  shows "validate_mapping basename cols rows
           = Inr (attrs_warning basename rows @ hierarchy_warning basename rows)"
proof -
  from assms(3) have "find (\<lambda>c. c \<notin> set cols) key_columns = None"
    by (auto simp: find_None_iff)
  with assms(1,2) show ?thesis
    by (simp add: validate_mapping_def Let_def list_all_iff)
qed


text \<open>
  C5. With \<open>validate=True\<close> a joined row whose computed offset is present, not
  inline and different from the authoritative offset is fatal, and the error is meant to
  report how many rows matched and how many did not. It does for a listing of two
  messages of which one matches. For a listing of one message whose computed offset is
  5 instead of 0, no row matches: \<open>value_counts\<close> has no entry for True, and building
  the message raises \<open>KeyError(True)\<close> before the ValueError exists.
\<close>

theorem no_row_matches_key_error:
  "map match_offset
     (merge_left (projr (parse_grib_idx dec_int ''f.grib2'' ''idx'' False one_message 100))
        [computed_row 1 5 100]) = [False]
   \<and> build_idx_grib_mapping dec_int ''f.grib2'' ''idx'' one_message 100 [computed_row 1 5 100] True
       = Inl (KeyErrorBool True)
   \<and> build_idx_grib_mapping dec_int ''f.grib2'' ''idx'' two_messages 250
         [computed_row 1 0 100, computed_row 2 105 150] True
       = Inl (ValueErrorMismatch ''f.grib2'' 1 1)"
  by code_simp

end
